theory Spec2Isabelle
  imports Main "HOL-Library.Word"
begin

unbundle bit_operations_syntax

section \<open>Common types\<close>

text \<open>A byte of a \<open>QByteArray\<close>, a C++ \<open>int\<close> (32 bits, read as two's complement by \<open>sint\<close>) and a
  \<open>quint64\<close>.\<close>

type_synonym byte = "8 word"
type_synonym cint = "32 word"
type_synonym u64 = "64 word"

section \<open>QString operations\<close>

text \<open>A \<open>QString\<close> is modelled as a \<open>string\<close>; the texts handled here (port names,
  numbers, the fields of a firmware file) are ASCII.\<close>

text \<open>\<open>QChar::isSpace\<close> on the characters a \<open>char\<close> can hold: tab, line feed, vertical
  tab, form feed, carriage return, space, next line (0x85) and no-break space (0xA0).\<close>

definition isSpace :: "char \<Rightarrow> bool" where
  "isSpace c = (let n = of_char c :: nat in (9 \<le> n \<and> n \<le> 13) \<or> n = 32 \<or> n = 133 \<or> n = 160)"

text \<open>\<open>QString::trimmed\<close>: whitespace removed from both ends.\<close>

definition trimmed :: "string \<Rightarrow> string" where
  "trimmed s = rev (dropWhile isSpace (rev (dropWhile isSpace s)))"

text \<open>\<open>QString::mid(position, n)\<close>: \<open>n\<close> characters from \<open>position\<close>, and
  everything from \<open>position\<close> when \<open>n\<close> is negative.\<close>

definition mid :: "string \<Rightarrow> nat \<Rightarrow> int \<Rightarrow> string" where
  "mid s position n = (if n < 0 then drop position s else take (nat n) (drop position s))"

text \<open>\<open>QString::split(sep)\<close> for a separator that is not empty, keeping empty parts:
  \<open>piece\<close> is the part read so far. The result always has at least one element.\<close>

function split_from :: "string \<Rightarrow> string \<Rightarrow> string \<Rightarrow> string list" where
  "split_from sep piece s =
     (if s = [] then [piece]
      else if sep \<noteq> [] \<and> take (length sep) s = sep
           then piece # split_from sep [] (drop (length sep) s)
           else split_from sep (piece @ [hd s]) (tl s))"
  by pat_completeness auto
termination
  by (relation "measure (\<lambda>(sep, piece, s). length s)") auto

declare split_from.simps [simp del]

definition qsplit :: "string \<Rightarrow> string \<Rightarrow> string list" where
  "qsplit sep s = split_from sep [] s"

text \<open>\<open>QString::number(int)\<close>: the decimal digits, after a minus sign for a negative
  number.\<close>

definition digit_char :: "nat \<Rightarrow> char" where
  "digit_char d = ''0123456789'' ! d"

function digits :: "nat \<Rightarrow> string" where
  "digits n = (if n < 10 then [digit_char n] else digits (n div 10) @ [digit_char (n mod 10)])"
  by pat_completeness auto
termination
  by (relation "measure (\<lambda>n. n)") auto

declare digits.simps [simp del]

definition number :: "cint \<Rightarrow> string" where
  "number v = (if sint v < 0 then CHR ''-'' # digits (nat (- sint v)) else digits (nat (sint v)))"

text \<open>\<open>QString::toInt\<close>: whitespace at both ends is ignored; an optional sign and at
  least one decimal digit follow; anything else, and a value outside the range of
  \<open>int\<close>, gives 0.\<close>

definition is_digit :: "char \<Rightarrow> bool" where
  "is_digit c = (48 \<le> (of_char c :: nat) \<and> (of_char c :: nat) \<le> 57)"

fun parse_digits :: "nat \<Rightarrow> string \<Rightarrow> nat option" where
  "parse_digits acc [] = Some acc"
| "parse_digits acc (c # cs) =
     (if is_digit c then parse_digits (10 * acc + (of_char c - 48)) cs else None)"

definition parse_int :: "string \<Rightarrow> int option" where
  "parse_int s =
     (case s of
        [] \<Rightarrow> None
      | c # cs \<Rightarrow>
          if c = CHR ''-'' then (if cs = [] then None
                                 else map_option (\<lambda>n. - int n) (parse_digits 0 cs))
          else if c = CHR ''+'' then (if cs = [] then None
                                      else map_option int (parse_digits 0 cs))
          else map_option int (parse_digits 0 s))"

definition toInt :: "string \<Rightarrow> cint" where
  "toInt s =
     (case parse_int (trimmed s) of
        None \<Rightarrow> 0
      | Some v \<Rightarrow> if - (2 ^ 31) \<le> v \<and> v < 2 ^ 31 then word_of_int v else 0)"

section \<open>SerialLink (src/comm/SerialLink.cc)\<close>

subsection \<open>State of a link\<close>

text \<open>The \<open>QSerialPort\<close> object behind \<open>m_port\<close>, as far as the link's accessors touch it.\<close>

record qserialport =
  p_portName :: string
  p_baudRate :: cint
  p_parity :: cint
  p_stopBits :: cint
  p_dataBits :: cint
  p_flowControl :: cint

datatype link_signal = NameChanged string | UpdateLink

text \<open>The members of \<open>SerialLink\<close>. \<open>m_port\<close> is \<open>None\<close> for the NULL pointer.
  \<open>m_portBaudMap\<close> is the \<open>QMap<QString,int>\<close>, as the list of its entries in
  iteration order. \<open>m_statisticsMutex\<close> is \<open>True\<close> while the mutex is held.\<close>

record serial_link =
  m_portName :: string
  m_baud :: cint
  m_parity :: cint
  m_stopBits :: cint
  m_dataBits :: cint
  m_flowControl :: cint
  m_portBaudMap :: "(string \<times> cint) list"
  m_port :: "qserialport option"
  m_bitsSentTotal :: u64
  m_bitsReceivedTotal :: u64
  m_connectionStartTime :: u64
  m_statisticsMutex :: bool
  emitted :: "link_signal list"

definition emit :: "link_signal \<Rightarrow> serial_link \<Rightarrow> serial_link" where
  "emit s st = st\<lparr>emitted := emitted st @ [s]\<rparr>"

subsection \<open>QMap operations used by the link\<close>

text \<open>\<open>QMap::contains\<close>, \<open>QMap::operator[]\<close> as a read of a present key, and
  \<open>QMap::operator[]\<close> as an assignment. The assignment replaces the value of a present
  key and inserts an absent key at its place in key order.\<close>

definition contains :: "(string \<times> cint) list \<Rightarrow> string \<Rightarrow> bool" where
  "contains m k = (map_of m k \<noteq> None)"

definition map_value :: "(string \<times> cint) list \<Rightarrow> string \<Rightarrow> cint" where
  "map_value m k = (case map_of m k of Some v \<Rightarrow> v | None \<Rightarrow> 0)"

fun string_less :: "string \<Rightarrow> string \<Rightarrow> bool" where
  "string_less [] [] = False"
| "string_less [] (y # ys) = True"
| "string_less (x # xs) [] = False"
| "string_less (x # xs) (y # ys) =
     ((of_char x :: nat) < of_char y \<or> (x = y \<and> string_less xs ys))"

fun map_insert :: "string \<Rightarrow> cint \<Rightarrow> (string \<times> cint) list \<Rightarrow> (string \<times> cint) list" where
  "map_insert k v [] = [(k, v)]"
| "map_insert k v ((k', v') # m) =
     (if k = k' then (k, v) # m
      else if string_less k k' then (k, v) # (k', v') # m
      else (k', v') # map_insert k v m)"

subsection \<open>setBaudRate and setPortName\<close>

text \<open>\<open>QSerialPort::setBaudRate\<close> answers for the device: \<open>dev rate\<close> tells whether the
  device takes the rate.\<close>

definition port_setBaudRate :: "(cint \<Rightarrow> bool) \<Rightarrow> cint \<Rightarrow> qserialport \<Rightarrow> bool \<times> qserialport" where
  "port_setBaudRate dev rate p = (if dev rate then (True, p\<lparr>p_baudRate := rate\<rparr>) else (False, p))"

definition setBaudRate :: "(cint \<Rightarrow> bool) \<Rightarrow> cint \<Rightarrow> serial_link \<Rightarrow> bool \<times> serial_link" where
  "setBaudRate dev rate st =
     (if rate \<noteq> m_baud st then
        let st1 = st\<lparr>m_baud := rate\<rparr>;
            st2 = st1\<lparr>m_portBaudMap := map_insert (m_portName st1) rate (m_portBaudMap st1)\<rparr>;
            (accepted, st3) =
              (case m_port st2 of
                 None \<Rightarrow> (True, st2)
               | Some p \<Rightarrow> (let (r, p') = port_setBaudRate dev rate p in (r, st2\<lparr>m_port := Some p'\<rparr>)))
        in (accepted, emit UpdateLink st3)
      else (False, st))"

definition setPortName :: "(cint \<Rightarrow> bool) \<Rightarrow> string \<Rightarrow> serial_link \<Rightarrow> bool \<times> serial_link" where
  "setPortName dev portName st =
     (let accepted = False in
      if portName \<noteq> m_portName st \<and> length (trimmed portName) > 0 then
        let st1 = st\<lparr>m_portName := trimmed portName\<rparr>;
            st2 = (case m_port st1 of
                     None \<Rightarrow> st1
                   | Some p \<Rightarrow> st1\<lparr>m_port := Some (p\<lparr>p_portName := portName\<rparr>)\<rparr>);
            st3 = emit (NameChanged (m_portName st2)) st2;
            st4 = emit UpdateLink st3;
            st5 = (if contains (m_portBaudMap st4) (m_portName st4)
                   then snd (setBaudRate dev (map_value (m_portBaudMap st4) (m_portName st4)) st4)
                   else st4)
        in (accepted, st5)
      else (False, st))"

subsection \<open>Stored settings\<close>

text \<open>A \<open>QSettings\<close> store: keys with values that are texts or integers. Reading a
  value as text or as integer converts it; a missing key reads as the empty text and
  as 0.\<close>

datatype variant = VString string | VInt cint

type_synonym settings = "string \<rightharpoonup> variant"

definition v_toString :: "variant option \<Rightarrow> string" where
  "v_toString v = (case v of None \<Rightarrow> [] | Some (VString s) \<Rightarrow> s | Some (VInt i) \<Rightarrow> number i)"

definition v_toInt :: "variant option \<Rightarrow> cint" where
  "v_toInt v = (case v of None \<Rightarrow> 0 | Some (VString s) \<Rightarrow> toInt s | Some (VInt i) \<Rightarrow> i)"

text \<open>The accessors that \<open>writeSettings\<close> calls. \<open>getStopBits\<close> and
  \<open>getDataBits\<close> switch on Qt's enumerants, whose values are the numbers they name
  (\<open>OneStop\<close> is 1, \<open>TwoStop\<close> is 2, \<open>Data5\<close> to \<open>Data8\<close> are 5 to 8).\<close>

definition getPortName :: "serial_link \<Rightarrow> string" where
  "getPortName st = m_portName st"

definition getBaudRateType :: "serial_link \<Rightarrow> cint" where
  "getBaudRateType st = (case m_port st of Some p \<Rightarrow> p_baudRate p | None \<Rightarrow> m_baud st)"

definition getParityType :: "serial_link \<Rightarrow> cint" where
  "getParityType st = (case m_port st of Some p \<Rightarrow> p_parity p | None \<Rightarrow> m_parity st)"

definition getFlowType :: "serial_link \<Rightarrow> cint" where
  "getFlowType st = (case m_port st of Some p \<Rightarrow> p_flowControl p | None \<Rightarrow> m_flowControl st)"

definition getStopBits :: "serial_link \<Rightarrow> cint" where
  "getStopBits st =
     (let stopBits = (case m_port st of Some p \<Rightarrow> p_stopBits p | None \<Rightarrow> m_stopBits st)
      in if stopBits = 1 then 1 else if stopBits = 2 then 2 else -1)"

definition getDataBits :: "serial_link \<Rightarrow> cint" where
  "getDataBits st =
     (let dataBits = (case m_port st of Some p \<Rightarrow> p_dataBits p | None \<Rightarrow> m_dataBits st)
      in if dataBits = 5 then 5 else if dataBits = 6 then 6 else if dataBits = 7 then 7
         else if dataBits = 8 then 8 else -1)"

text \<open>The text that \<open>writeSettings\<close> builds from the baud map: every entry followed by
  a comma, then the last character cut off.\<close>

definition portbaudmap_text :: "(string \<times> cint) list \<Rightarrow> string" where
  "portbaudmap_text m =
     (let portbaudmap = foldl (\<lambda>acc (k, v). acc @ k @ '':'' @ number v @ '','') [] m
      in mid portbaudmap 0 (int (length portbaudmap) - 1))"

definition writeSettings :: "serial_link \<Rightarrow> settings \<Rightarrow> settings" where
  "writeSettings st settings =
     settings
       (''SERIALLINK_COMM_PORT'' \<mapsto> VString (getPortName st),
        ''SERIALLINK_COMM_BAUD'' \<mapsto> VInt (getBaudRateType st),
        ''SERIALLINK_COMM_PARITY'' \<mapsto> VInt (getParityType st),
        ''SERIALLINK_COMM_STOPBITS'' \<mapsto> VInt (getStopBits st),
        ''SERIALLINK_COMM_DATABITS'' \<mapsto> VInt (getDataBits st),
        ''SERIALLINK_COMM_FLOW_CONTROL'' \<mapsto> VInt (getFlowType st),
        ''SERIALLINK_COMM_PORTMAP'' \<mapsto> VString (portbaudmap_text (m_portBaudMap st)))"

text \<open>The loop of \<open>loadSettings\<close> over the pieces between commas: a piece that splits
  at colons into exactly two parts sets the map's value for the first part to the second
  part read as an integer.\<close>

definition load_portbaud :: "(string \<times> cint) list \<Rightarrow> string \<Rightarrow> (string \<times> cint) list" where
  "load_portbaud m portbaud =
     (if length (qsplit '':'' portbaud) = 2
      then map_insert (qsplit '':'' portbaud ! 0) (toInt (qsplit '':'' portbaud ! 1)) m
      else m)"

definition loadSettings :: "settings \<Rightarrow> serial_link \<Rightarrow> serial_link" where
  "loadSettings settings st =
     (if settings ''SERIALLINK_COMM_PORT'' \<noteq> None then
        (let st1 = st\<lparr>m_portName := v_toString (settings ''SERIALLINK_COMM_PORT''),
                      m_baud := v_toInt (settings ''SERIALLINK_COMM_BAUD''),
                      m_parity := v_toInt (settings ''SERIALLINK_COMM_PARITY''),
                      m_stopBits := v_toInt (settings ''SERIALLINK_COMM_STOPBITS''),
                      m_dataBits := v_toInt (settings ''SERIALLINK_COMM_DATABITS''),
                      m_flowControl := v_toInt (settings ''SERIALLINK_COMM_FLOW_CONTROL'')\<rparr>;
             portbaudmap = v_toString (settings ''SERIALLINK_COMM_PORTMAP'');
             portbaudsplit = qsplit '','' portbaudmap;
             st2 = st1\<lparr>m_portBaudMap := foldl load_portbaud (m_portBaudMap st1) portbaudsplit\<rparr>
         in if length (m_portBaudMap st2) = 0
            then st2\<lparr>m_portBaudMap := map_insert (m_portName st2) (m_baud st2) (m_portBaudMap st2)\<rparr>
            else st2)
      else st)"

text \<open>The format the settings are documented to have: \<open>port:baud\<close> entries with a comma
  between them.\<close>

fun joined_entries :: "(string \<times> cint) list \<Rightarrow> string" where
  "joined_entries [] = []"
| "joined_entries [(k, v)] = k @ '':'' @ number v"
| "joined_entries ((k, v) # e # m) = k @ '':'' @ number v @ '','' @ joined_entries (e # m)"

text \<open>A store with no settings.\<close>

definition no_settings :: settings where
  "no_settings = Map.empty"

subsection \<open>Connection statistics\<close>

text \<open>The value of a rate accessor: the call blocks on the statistics mutex, divides by
  zero (undefined behaviour in C++), or returns a rate.\<close>

datatype rate_result = Blocked | DivisionByZero | Rate u64

text \<open>\<open>getTotalUpstream\<close> and \<open>getTotalDownstream\<close>. \<open>now\<close> is the value of
  \<open>MG::TIME::getGroundTimeNow()\<close>, in milliseconds. The function returns before it
  unlocks the mutex, so the mutex stays held.\<close>

definition getTotalUpstream :: "u64 \<Rightarrow> serial_link \<Rightarrow> rate_result \<times> serial_link" where
  "getTotalUpstream now st =
     (if m_statisticsMutex st then (Blocked, st)
      else
        let st1 = st\<lparr>m_statisticsMutex := True\<rparr>;
            divisor = (now - m_connectionStartTime st1) div 1000
        in if divisor = 0 then (DivisionByZero, st1)
           else (Rate (m_bitsSentTotal st1 div divisor), st1))"

definition getTotalDownstream :: "u64 \<Rightarrow> serial_link \<Rightarrow> rate_result \<times> serial_link" where
  "getTotalDownstream now st =
     (if m_statisticsMutex st then (Blocked, st)
      else
        let st1 = st\<lparr>m_statisticsMutex := True\<rparr>;
            divisor = (now - m_connectionStartTime st1) div 1000
        in if divisor = 0 then (DivisionByZero, st1)
           else (Rate (m_bitsReceivedTotal st1 div divisor), st1))"

text \<open>A link as the constructor leaves it when no settings are stored and no device is
  listed, connected at time \<open>t0\<close>.\<close>

definition fresh_link :: "u64 \<Rightarrow> serial_link" where
  "fresh_link t0 =
     \<lparr>m_portName = ''No Devices'', m_baud = -1, m_parity = 0, m_stopBits = 1, m_dataBits = 8,
      m_flowControl = 0, m_portBaudMap = [], m_port = None, m_bitsSentTotal = 0,
      m_bitsReceivedTotal = 0, m_connectionStartTime = t0, m_statisticsMutex = False,
      emitted = []\<rparr>"

text \<open>A link that remembers a baud rate for the port COM3.\<close>

definition remembering_link :: serial_link where
  "remembering_link = (fresh_link 0)\<lparr>m_portBaudMap := [(''COM3'', 57600)]\<rparr>"

text \<open>A link that remembers the rates of two ports.\<close>

definition two_port_link :: serial_link where
  "two_port_link = (fresh_link 0)\<lparr>m_portBaudMap := [(''COM3'', 57600), (''ttyUSB0'', 115200)]\<rparr>"

section \<open>PX4FirmwareUploader (src/ui/configuration/PX4FirmwareUploader.cc)\<close>

subsection \<open>The PROGRAM_MULTI frame\<close>

text \<open>\<open>QFile::read(maxlen)\<close> on the temporary file: at most \<open>maxlen\<close> bytes from the
  current position.\<close>

definition file_read :: "nat \<Rightarrow> nat \<Rightarrow> byte list \<Rightarrow> byte list" where
  "file_read maxlen pos content = take maxlen (drop pos content)"

text \<open>The frame built in \<open>tosend\<close> for one chunk: opcode, the chunk's size as one
  \<open>char\<close>, the chunk, end of command.\<close>

definition program_multi_frame :: "byte list \<Rightarrow> byte list" where
  "program_multi_frame buf = [0x27] @ [of_nat (length buf)] @ buf @ [0x20]"

subsection \<open>State of an upload\<close>

datatype up_signal =
    StatusUpdate string
  | BoardRev cint | BoardId cint | BootloaderRev cint | FlashSize cint
  | SerialNumber string | OTP string
  | FlashProgress nat nat
  | Error string
  | Done

text \<open>The members of \<open>PX4FirmwareUploader\<close> and what they point to: the fields read
  from the firmware file, whether the upload thread has been started, the receive
  accumulator, the stop flag, the serial port behind \<open>m_port\<close> and the temporary file
  behind \<open>tempFile\<close>. \<open>port_assigned\<close> tells whether \<open>m_port\<close> points to a port
  object: the constructor leaves the pointer unset and \<open>run\<close> assigns it.
  \<open>port_events\<close> is what the device will do: each wait for data takes the next entry,
  \<open>Some bs\<close> for the arrival of \<open>bs\<close> and \<open>None\<close> for a timeout. \<open>signals\<close>
  lists the signals emitted so far.\<close>

record uploader =
  m_loadedBoardID :: cint
  m_loadedFwSize :: cint
  m_loadedDescription :: string
  started :: bool
  m_serialBuffer :: "byte list"
  m_stop :: bool
  port_events :: "byte list option list"
  port_rx :: "byte list"
  port_written :: "byte list list"
  port_open :: bool
  port_deleted :: bool
  port_assigned :: bool
  tf_content :: "byte list"
  tf_pos :: nat
  tf_open :: bool
  tf_deleted :: bool
  signals :: "up_signal list"

definition emit_signal :: "up_signal \<Rightarrow> uploader \<Rightarrow> uploader" where
  "emit_signal s st = st\<lparr>signals := signals st @ [s]\<rparr>"

definition port_clear :: "uploader \<Rightarrow> uploader" where
  "port_clear st = st\<lparr>port_rx := []\<rparr>"

definition port_write :: "byte list \<Rightarrow> uploader \<Rightarrow> uploader" where
  "port_write bs st = st\<lparr>port_written := port_written st @ [bs]\<rparr>"

definition port_waitForReadyRead :: "uploader \<Rightarrow> bool \<times> uploader" where
  "port_waitForReadyRead st =
     (case port_events st of
        [] \<Rightarrow> (False, st)
      | None # es \<Rightarrow> (False, st\<lparr>port_events := es\<rparr>)
      | Some bs # es \<Rightarrow> (True, st\<lparr>port_events := es, port_rx := port_rx st @ bs\<rparr>))"

definition port_readAll :: "uploader \<Rightarrow> byte list \<times> uploader" where
  "port_readAll st = (port_rx st, st\<lparr>port_rx := []\<rparr>)"

definition port_drain :: "uploader \<Rightarrow> uploader" where
  "port_drain st = st\<lparr>port_rx := []\<rparr>"

definition port_close :: "uploader \<Rightarrow> uploader" where
  "port_close st = st\<lparr>port_open := False\<rparr>"

definition port_delete :: "uploader \<Rightarrow> uploader" where
  "port_delete st = st\<lparr>port_deleted := True\<rparr>"

function wait_read :: "nat \<Rightarrow> uploader \<Rightarrow> (int \<times> byte list) \<times> uploader" where
  "wait_read num st =
     (let (ready, st1) = port_waitForReadyRead st in
      if ready then
        let (data, st2) = port_readAll st1;
            st3 = st2\<lparr>m_serialBuffer := m_serialBuffer st2 @ data\<rparr>
        in if length (m_serialBuffer st3) \<ge> num
           then ((int num, take num (m_serialBuffer st3)),
                 st3\<lparr>m_serialBuffer := drop num (m_serialBuffer st3)\<rparr>)
           else wait_read num st3
      else ((-1, []), st1))"
  by pat_completeness auto
termination
  by (relation "measure (\<lambda>(num, st). length (port_events st))")
     (auto simp: port_waitForReadyRead_def port_readAll_def split: list.splits option.splits)

declare wait_read.simps [simp del]

definition readBytes :: "nat \<Rightarrow> uploader \<Rightarrow> (int \<times> byte list) \<times> uploader" where
  "readBytes num st =
     (if length (m_serialBuffer st) \<ge> num
      then ((int num, take num (m_serialBuffer st)),
            st\<lparr>m_serialBuffer := drop num (m_serialBuffer st)\<rparr>)
      else wait_read num st)"

definition get_sync :: "uploader \<Rightarrow> int \<times> uploader" where
  "get_sync st =
     (let ((read, infobuf), st1) = readBytes 2 st in
      if read \<noteq> 2 then (-1, st1)
      else if infobuf ! 0 \<noteq> 0x12 \<or> infobuf ! 1 \<noteq> 0x10 then (-1, st1)
      else (0, st1))"

subsection \<open>What a read can obtain\<close>

text \<open>The bytes that arrive before the first wait that times out.\<close>

fun arrivals :: "byte list option list \<Rightarrow> byte list" where
  "arrivals [] = []"
| "arrivals (None # es) = []"
| "arrivals (Some bs # es) = bs @ arrivals es"

text \<open>The bytes a read of \<open>num\<close> bytes can obtain before it gives up: the accumulator
  alone when it holds enough; otherwise the accumulator, what the port holds and what
  arrives before the first timeout, and the accumulator alone when nothing arrives.\<close>

definition obtained :: "nat \<Rightarrow> uploader \<Rightarrow> byte list" where
  "obtained num st =
     (if length (m_serialBuffer st) \<ge> num then m_serialBuffer st
      else case port_events st of
             Some bs # es \<Rightarrow> m_serialBuffer st @ port_rx st @ arrivals (port_events st)
           | _ \<Rightarrow> m_serialBuffer st)"

subsection \<open>The temporary file and the programming loop\<close>

definition tf_atEnd :: "uploader \<Rightarrow> bool" where
  "tf_atEnd st = (tf_pos st \<ge> length (tf_content st))"

definition tf_read :: "nat \<Rightarrow> uploader \<Rightarrow> byte list \<times> uploader" where
  "tf_read maxlen st =
     (let buf = file_read maxlen (tf_pos st) (tf_content st)
      in (buf, st\<lparr>tf_pos := tf_pos st + length buf\<rparr>))"

definition tf_open_file :: "uploader \<Rightarrow> uploader" where
  "tf_open_file st = st\<lparr>tf_open := True, tf_pos := 0\<rparr>"

definition tf_seek :: "nat \<Rightarrow> uploader \<Rightarrow> uploader" where
  "tf_seek p st = st\<lparr>tf_pos := p\<rparr>"

definition tf_close :: "uploader \<Rightarrow> uploader" where
  "tf_close st = st\<lparr>tf_open := False\<rparr>"

definition tf_delete :: "uploader \<Rightarrow> uploader" where
  "tf_delete st = st\<lparr>tf_deleted := True\<rparr>"

datatype outcome = WriteFailed | EraseTimeout | Stopped | TempFileError

datatype chunk_step = Again nat nat uploader | Exit outcome uploader

definition program_chunk :: "nat \<Rightarrow> nat \<Rightarrow> uploader \<Rightarrow> chunk_step" where
  "program_chunk counter failure st =
     (let (buf, st1) = tf_read 60 st in
      if length buf > 0 then
        (let st2 = port_write (program_multi_frame buf) (port_clear st1);
             (sync, st3) = get_sync st2
         in if sync \<noteq> 0 then
              (if failure + 1 > 2 then
                 Exit WriteFailed
                   (tf_delete (tf_close (port_close
                      (emit_signal (Error ''Error writing firmware, invalid sync. Please retry'') st3))))
               else
                 (let st4 = emit_signal
                              (StatusUpdate ''Erasing flash, this may take up to a minute'') st3;
                      st5 = port_write [0x23, 0x20] (port_clear st4);
                      (sync2, st6) = get_sync st5
                  in if sync2 \<noteq> 0 then Exit EraseTimeout st6
                     else Again counter (failure + 1) (tf_seek 0 st6)))
            else
              (let st4 = (if counter mod 50 = 0
                          then emit_signal
                                 (FlashProgress (tf_pos st3) (length (tf_content st3))) st3
                          else st3)
               in if m_stop st4
                  then Exit Stopped (port_delete (tf_delete (tf_close (port_close st4))))
                  else Again (counter + 1) failure st4))
      else Exit TempFileError (port_delete (tf_delete (tf_close (port_close st1)))))"

lemma wait_read_frame:
  "\<exists>sb es rx. snd (wait_read num st) = st\<lparr>m_serialBuffer := sb, port_events := es, port_rx := rx\<rparr>"
proof (induction num st rule: wait_read.induct)
  case (1 num st)
  show ?case
  proof (cases "port_events st")
    case Nil
    then have "snd (wait_read num st) = st"
      by (subst wait_read.simps) (simp add: port_waitForReadyRead_def)
    then have "snd (wait_read num st) = st\<lparr>m_serialBuffer := m_serialBuffer st,
        port_events := port_events st, port_rx := port_rx st\<rparr>" by simp
    then show ?thesis by blast
  next
    case (Cons e es)
    show ?thesis
    proof (cases e)
      case None
      with Cons have "snd (wait_read num st) = st\<lparr>port_events := es\<rparr>"
        by (subst wait_read.simps) (simp add: port_waitForReadyRead_def)
      then have "snd (wait_read num st) = st\<lparr>m_serialBuffer := m_serialBuffer st,
          port_events := es, port_rx := port_rx st\<rparr>" by simp
      then show ?thesis by blast
    next
      case (Some bs)
      let ?st3 = "st\<lparr>port_events := es, port_rx := [], m_serialBuffer := m_serialBuffer st @ port_rx st @ bs\<rparr>"
      show ?thesis
      proof (cases "length (m_serialBuffer st @ port_rx st @ bs) \<ge> num")
        case True
        with Cons Some have "snd (wait_read num st) =
            st\<lparr>m_serialBuffer := drop num (m_serialBuffer st @ port_rx st @ bs),
               port_events := es, port_rx := []\<rparr>"
          by (subst wait_read.simps) (simp add: port_waitForReadyRead_def port_readAll_def Let_def)
        then show ?thesis by blast
      next
        case False
        have "\<exists>sb es rx. snd (wait_read num ?st3) =
                ?st3\<lparr>m_serialBuffer := sb, port_events := es, port_rx := rx\<rparr>"
          using False Cons Some
          by (intro "1.IH"[of "(True, st\<lparr>port_events := es, port_rx := port_rx st @ bs\<rparr>)" True
                "st\<lparr>port_events := es, port_rx := port_rx st @ bs\<rparr>"
                "(port_rx st @ bs, st\<lparr>port_events := es, port_rx := []\<rparr>)" "port_rx st @ bs"
                "st\<lparr>port_events := es, port_rx := []\<rparr>" ?st3])
             (simp_all add: port_waitForReadyRead_def port_readAll_def)
        then obtain sb es' rx where
          r: "snd (wait_read num ?st3) = ?st3\<lparr>m_serialBuffer := sb, port_events := es', port_rx := rx\<rparr>"
          by blast
        have "wait_read num st = wait_read num ?st3"
          using False Cons Some
          by (subst wait_read.simps) (simp add: port_waitForReadyRead_def port_readAll_def Let_def)
        with r have "snd (wait_read num st) =
            st\<lparr>m_serialBuffer := sb, port_events := es', port_rx := rx\<rparr>" by simp
        then show ?thesis by blast
      qed
    qed
  qed
qed

lemma readBytes_frame:
  "\<exists>sb es rx. snd (readBytes num st) = st\<lparr>m_serialBuffer := sb, port_events := es, port_rx := rx\<rparr>"
proof (cases "length (m_serialBuffer st) \<ge> num")
  case True
  then have "snd (readBytes num st) = st\<lparr>m_serialBuffer := drop num (m_serialBuffer st),
      port_events := port_events st, port_rx := port_rx st\<rparr>"
    by (simp add: readBytes_def)
  then show ?thesis by blast
next
  case False
  then have "snd (readBytes num st) = snd (wait_read num st)"
    by (simp add: readBytes_def)
  with wait_read_frame [of num st] show ?thesis by simp
qed

lemma readBytes_fields [simp]:
  "tf_pos (snd (readBytes num st)) = tf_pos st"
  "tf_content (snd (readBytes num st)) = tf_content st"
  "tf_open (snd (readBytes num st)) = tf_open st"
  "tf_deleted (snd (readBytes num st)) = tf_deleted st"
  "port_written (snd (readBytes num st)) = port_written st"
  "port_open (snd (readBytes num st)) = port_open st"
  "port_deleted (snd (readBytes num st)) = port_deleted st"
  "m_stop (snd (readBytes num st)) = m_stop st"
  "signals (snd (readBytes num st)) = signals st"
proof -
  obtain sb es rx where
    e: "snd (readBytes num st) = st\<lparr>m_serialBuffer := sb, port_events := es, port_rx := rx\<rparr>"
    using readBytes_frame [of num st] by blast
  show "tf_pos (snd (readBytes num st)) = tf_pos st" by (simp add: e)
  show "tf_content (snd (readBytes num st)) = tf_content st" by (simp add: e)
  show "tf_open (snd (readBytes num st)) = tf_open st" by (simp add: e)
  show "tf_deleted (snd (readBytes num st)) = tf_deleted st" by (simp add: e)
  show "port_written (snd (readBytes num st)) = port_written st" by (simp add: e)
  show "port_open (snd (readBytes num st)) = port_open st" by (simp add: e)
  show "port_deleted (snd (readBytes num st)) = port_deleted st" by (simp add: e)
  show "m_stop (snd (readBytes num st)) = m_stop st" by (simp add: e)
  show "signals (snd (readBytes num st)) = signals st" by (simp add: e)
qed

lemma get_sync_snd: "snd (get_sync st) = snd (readBytes 2 st)"
  by (simp add: get_sync_def Let_def split: prod.splits)

lemma get_sync_tf [simp]:
  "tf_pos (snd (get_sync st)) = tf_pos st"
  "tf_content (snd (get_sync st)) = tf_content st"
  by (simp_all add: get_sync_snd)

lemma get_sync_fields [simp]:
  "tf_open (snd (get_sync st)) = tf_open st"
  "tf_deleted (snd (get_sync st)) = tf_deleted st"
  "port_written (snd (get_sync st)) = port_written st"
  "port_open (snd (get_sync st)) = port_open st"
  "port_deleted (snd (get_sync st)) = port_deleted st"
  "m_stop (snd (get_sync st)) = m_stop st"
  "signals (snd (get_sync st)) = signals st"
  by (simp_all add: get_sync_snd)

definition program_measure :: "nat \<Rightarrow> uploader \<Rightarrow> nat" where
  "program_measure failure st =
     (3 - failure) * (length (tf_content st) + 1) + (length (tf_content st) - tf_pos st)"

lemma program_chunk_decreases:
  assumes "\<not> tf_atEnd st" and "program_chunk counter failure st = Again c f st'"
  shows "program_measure f st' < program_measure failure st"
proof -
  obtain buf st1 where r: "tf_read 60 st = (buf, st1)" by (cases "tf_read 60 st")
  define st2 where "st2 = port_write (program_multi_frame buf) (port_clear st1)"
  obtain sync st3 where g: "get_sync st2 = (sync, st3)" by (cases "get_sync st2")
  have lt: "tf_pos st < length (tf_content st)" using assms(1) by (simp add: tf_atEnd_def)
  have c1: "tf_content st1 = tf_content st" "tf_pos st1 = tf_pos st + length buf"
    using r by (auto simp: tf_read_def Let_def)
  have c2: "tf_content st2 = tf_content st" "tf_pos st2 = tf_pos st + length buf"
    using c1 by (simp_all add: st2_def port_write_def port_clear_def)
  have "snd (get_sync st2) = st3" using g by simp
  then have c3: "tf_content st3 = tf_content st" "tf_pos st3 = tf_pos st + length buf"
    using get_sync_tf [of st2] c2 by simp_all
  have nonempty: "0 < length buf"
    using r lt by (auto simp: tf_read_def file_read_def Let_def)
  show ?thesis
  proof (cases "sync \<noteq> 0")
    case True
    define st5 where "st5 = port_write [0x23, 0x20] (port_clear
      (emit_signal (StatusUpdate ''Erasing flash, this may take up to a minute'') st3))"
    obtain sync2 st6 where g2: "get_sync st5 = (sync2, st6)" by (cases "get_sync st5")
    have c5: "tf_content st5 = tf_content st"
      using c3 by (simp add: st5_def port_write_def port_clear_def emit_signal_def)
    have "snd (get_sync st5) = st6" using g2 by simp
    then have c6: "tf_content st6 = tf_content st"
      using get_sync_tf(2) [of st5] c5 by simp
    from assms(2) True r g g2 nonempty
    have f: "failure < 2" and e: "f = failure + 1" "st' = tf_seek 0 st6"
      by (auto simp: program_chunk_def Let_def st2_def [symmetric] st5_def [symmetric]
          split: if_splits)
    from f have "(3 - failure) * (length (tf_content st) + 1)
           = (2 - failure) * (length (tf_content st) + 1) + (length (tf_content st) + 1)"
      by (cases failure; cases "failure - 1") auto
    then show ?thesis using e c6 by (simp add: program_measure_def tf_seek_def)
  next
    case False
    from assms(2) False r g nonempty
    have e: "f = failure" "tf_content st' = tf_content st3" "tf_pos st' = tf_pos st3"
      by (auto simp: program_chunk_def Let_def st2_def [symmetric] emit_signal_def
          split: if_splits)
    from lt nonempty have "length (tf_content st) - (tf_pos st + length buf)
              < length (tf_content st) - tf_pos st" by arith
    then show ?thesis using e c3 by (simp add: program_measure_def)
  qed
qed

function program_loop :: "nat \<Rightarrow> nat \<Rightarrow> uploader \<Rightarrow> outcome option \<times> uploader" where
  "program_loop counter failure st =
     (if \<not> tf_atEnd st then
        (case program_chunk counter failure st of
           Again counter' failure' st' \<Rightarrow> program_loop counter' failure' st'
         | Exit r st' \<Rightarrow> (Some r, st'))
      else (None, st))"
  by pat_completeness auto
termination
  by (relation "measure (\<lambda>(counter, failure, st). program_measure failure st)")
     (auto simp: program_chunk_decreases)

declare program_loop.simps [simp del]


subsection \<open>Device information\<close>

text \<open>\<open>reqInfo\<close>: \<open>reply\<close> is the value behind the pointer before the call; the
  function leaves it unchanged when fewer than 4 bytes were read.\<close>

definition reqInfo :: "byte \<Rightarrow> cint \<Rightarrow> uploader \<Rightarrow> (bool \<times> cint) \<times> uploader" where
  "reqInfo infobyte reply st =
     (let st1 = port_write [0x22, infobyte, 0x20] (port_clear st);
          ((read, infobuf), st2) = readBytes 4 st1;
          reply' = (if read \<noteq> 4 then reply
                    else ucast (infobuf ! 0) + push_bit 8 (ucast (infobuf ! 1))
                         + push_bit 16 (ucast (infobuf ! 2)) + push_bit 24 (ucast (infobuf ! 3)));
          (sync, st3) = get_sync st2
      in ((sync = 0, reply'), st3))"

subsection \<open>Reading the OTP area and the serial number\<close>

text \<open>One pass through the body of the OTP loop at address \<open>i\<close>. A short read and a
  bad sync both subtract 4 from \<open>i\<close> before the loop adds 4 again, so the same address
  comes next.\<close>

datatype otp_step = OtpNext nat "byte list" uploader | OtpStop uploader

definition otp_chunk :: "nat \<Rightarrow> byte list \<Rightarrow> uploader \<Rightarrow> otp_step" where
  "otp_chunk i otpbuf st =
     (let st1 = port_write
                  [0x2A, ucast ((word_of_nat i :: cint) AND 0xFF),
                   ucast (drop_bit 8 (word_of_nat i :: cint) AND 0xFF), 0, 0]
                  (port_clear st);
          ((count, bytes), st2) = readBytes 4 st1
      in if count < 4
         then OtpNext i otpbuf (port_clear (port_drain (snd (port_waitForReadyRead st2))))
         else
           (let otpbuf1 = otpbuf[i := bytes ! 0, i + 1 := bytes ! 1,
                                 i + 2 := bytes ! 2, i + 3 := bytes ! 3];
                (sync, st3) = get_sync st2
            in if sync \<noteq> 0
               then OtpNext i otpbuf1 (port_drain (snd (port_waitForReadyRead st3)))
               else if m_stop st3 then OtpStop (port_delete (port_close st3))
               else OtpNext (i + 4) otpbuf1 st3))"

text \<open>The OTP loop retries a failed address without bound, so it is given fuel:
  \<open>None\<close> means the fuel ran out. The result is whether the loop left through the
  stop flag, with the buffer read.\<close>

fun otp_loop :: "nat \<Rightarrow> nat \<Rightarrow> byte list \<Rightarrow> uploader \<Rightarrow> (bool \<times> byte list \<times> uploader) option" where
  "otp_loop 0 i otpbuf st = None"
| "otp_loop (Suc fuel) i otpbuf st =
     (if i < 512 then
        (case otp_chunk i otpbuf st of
           OtpNext i' otpbuf' st' \<Rightarrow> otp_loop fuel i' otpbuf' st'
         | OtpStop st' \<Rightarrow> Some (True, otpbuf, st'))
      else Some (False, otpbuf, st))"

text \<open>The header test of line 424.\<close>

definition otp_header_failure :: "byte list \<Rightarrow> bool" where
  "otp_header_failure otpbuf =
     (otpbuf ! 0 \<noteq> 80 \<and> otpbuf ! 1 \<noteq> 88 \<and> otpbuf ! 2 \<noteq> 52 \<and> otpbuf ! 3 \<noteq> 0)"

text \<open>One pass through the body of the serial-number loop at address \<open>i\<close>.\<close>

datatype sn_step = SnNext nat "byte list" uploader | SnBad "byte list" uploader

definition sn_chunk :: "nat \<Rightarrow> byte list \<Rightarrow> uploader \<Rightarrow> sn_step" where
  "sn_chunk i snbuf st =
     (let st1 = port_write [0x2B, word_of_nat i, 0, 0, 0, 0x20] (port_clear st);
          ((count, bytes), st2) = readBytes 4 st1
      in if count < 4
         then SnNext i snbuf (port_drain (snd (port_waitForReadyRead st2)))
         else
           (let snbuf1 = snbuf[i := bytes ! 3, i + 1 := bytes ! 2,
                               i + 2 := bytes ! 1, i + 3 := bytes ! 0];
                (sync, st3) = get_sync st2
            in if sync \<noteq> 0 then SnBad snbuf1 st3
               else SnNext (i + 4) snbuf1 (port_drain st3)))"

text \<open>The serial-number loop, with fuel as well. The result is the flag \<open>bad\<close> with the
  buffer read.\<close>

fun sn_loop :: "nat \<Rightarrow> nat \<Rightarrow> byte list \<Rightarrow> uploader \<Rightarrow> (bool \<times> byte list \<times> uploader) option" where
  "sn_loop 0 i snbuf st = None"
| "sn_loop (Suc fuel) i snbuf st =
     (if i < 12 then
        (case sn_chunk i snbuf st of
           SnNext i' snbuf' st' \<Rightarrow> sn_loop fuel i' snbuf' st'
         | SnBad snbuf' st' \<Rightarrow> Some (True, snbuf', st'))
      else Some (False, snbuf, st))"

text \<open>The texts sent with the \<open>OTP\<close> and \<open>serialNumber\<close> signals: each byte as two
  upper-case hexadecimal digits and a space, the OTP dump in lines of 16 bytes.\<close>

definition hex_digit :: "nat \<Rightarrow> char" where
  "hex_digit n = ''0123456789ABCDEF'' ! n"

definition number16 :: "byte \<Rightarrow> string" where
  "number16 b =
     (if unat b < 16 then [hex_digit (unat b)]
      else [hex_digit (unat b div 16), hex_digit (unat b mod 16)])"

definition hex_byte :: "byte \<Rightarrow> string" where
  "hex_byte b = (if b \<le> 0xF then ''0'' else []) @ number16 b @ '' ''"

definition otp_format :: "byte list \<Rightarrow> string" where
  "otp_format otpbuf =
     fst (foldl (\<lambda>(otpstr, otpoutput) i.
                   let out = otpoutput @ hex_byte (otpbuf ! i)
                   in if i mod 16 = 15 then (otpstr @ out @ [CHR 0x0A], []) else (otpstr, out))
                ([], []) [0..<512])"

definition sn_format :: "byte list \<Rightarrow> string" where
  "sn_format snbuf = foldl (\<lambda>SN i. SN @ hex_byte (snbuf ! i)) [] [0..<12]"

text \<open>What the block for bootloader revision 4 and later ends in: \<open>continue\<close> of the
  retry loop, \<open>return\<close> from \<open>run\<close>, or the two texts.\<close>

datatype v4_result = V4Continue uploader | V4Return uploader | V4Ok string string uploader

text \<open>The block from the header test on, for the OTP buffer read.\<close>

definition after_otp_read :: "nat \<Rightarrow> byte list \<Rightarrow> uploader \<Rightarrow> v4_result option" where
  "after_otp_read fuel otpbuf st =
     (if otp_header_failure otpbuf then Some (V4Continue st)
      else
        (let otpstr = otp_format otpbuf;
             st1 = emit_signal (StatusUpdate ''Requesting board SN'') st
         in case sn_loop fuel 0 (replicate 12 0) st1 of
              None \<Rightarrow> None
            | Some (bad, snbuf, st2) \<Rightarrow>
                if bad then Some (V4Continue st2)
                else Some (V4Ok otpstr (sn_format snbuf)
                             (emit_signal (StatusUpdate ''Verifying OTP'') st2))))"

definition read_otp_and_sn :: "nat \<Rightarrow> uploader \<Rightarrow> v4_result option" where
  "read_otp_and_sn fuel st =
     (case otp_loop fuel 0 (replicate 512 0) (emit_signal (StatusUpdate ''Requesting OTP'') st) of
        None \<Rightarrow> None
      | Some (stopped, otpbuf, st1) \<Rightarrow>
          if stopped then Some (V4Return st1) else after_otp_read fuel otpbuf st1)"

subsection \<open>Erasing and programming\<close>

datatype flash_result = Finished | Failed outcome

text \<open>The code from the ERASE command to the end of the flashing block. Every path
  returns from \<open>run\<close>.\<close>

definition erase_and_flash :: "uploader \<Rightarrow> flash_result \<times> uploader" where
  "erase_and_flash st =
     (let st1 = emit_signal (StatusUpdate ''Erasing flash, this may take up to a minute'') st;
          st2 = port_write [0x23, 0x20] st1;
          (sync, st3) = get_sync st2
      in if sync \<noteq> 0 then (Failed EraseTimeout, st3)
         else if m_stop st3 then (Failed Stopped, port_delete (port_close st3))
         else
           (let st4 = port_clear st3;
                st5 = emit_signal (StatusUpdate ''Flashing firmware'') st4;
                st6 = tf_open_file st5
            in case program_loop 0 0 st6 of
                 (Some r, st7) \<Rightarrow> (Failed r, st7)
               | (None, st7) \<Rightarrow>
                   (Finished,
                    emit_signal Done (port_delete (tf_delete (tf_close (port_close
                      (port_write [0x30, 0x20]
                        (emit_signal (StatusUpdate ''Flashing complete!'') st7)))))))))"

subsection \<open>The retry loop of run\<close>

datatype flow = Continue | Return

text \<open>The body of the retry loop after a successful SYNC.\<close>

definition query_and_flash :: "nat \<Rightarrow> uploader \<Rightarrow> (flow \<times> uploader) option" where
  "query_and_flash fuel st =
     (let st1 = emit_signal (StatusUpdate ''Requesting bootloader rev'') st;
          ((reply1, read1), st2) = reqInfo 0x01 0 st1
      in if \<not> reply1 then Some (Continue, st2)
         else
     (let bootloaderrev = read1;
          st3 = emit_signal (StatusUpdate ''Requesting board ID'') st2;
          ((reply2, read2), st4) = reqInfo 0x02 read1 st3
      in if \<not> reply2 then Some (Continue, st4)
         else
     (let boardid = read2;
          st5 = emit_signal (StatusUpdate ''Requesting board rev'') st4;
          ((reply3, read3), st6) = reqInfo 0x03 read2 st5
      in if \<not> reply3 then Some (Continue, st6)
         else
     (let boardrev = read3;
          st7 = emit_signal (StatusUpdate ''Requesting firmware size'') st6;
          ((reply4, read4), st8) = reqInfo 0x04 read3 st7
      in if \<not> reply4 then Some (Continue, st8)
         else
     (let flashsize = read4;
          st9 = port_drain st8
      in if m_stop st9 then Some (Return, port_delete (port_close st9))
         else
           (case (if 4 \<le>s bootloaderrev then read_otp_and_sn fuel st9
                  else Some (V4Ok [] [] st9)) of
              None \<Rightarrow> None
            | Some (V4Continue st10) \<Rightarrow> Some (Continue, st10)
            | Some (V4Return st10) \<Rightarrow> Some (Return, st10)
            | Some (V4Ok otpstr snstr st10) \<Rightarrow>
                if m_stop st10 then Some (Return, port_delete (port_close st10))
                else
                  (let st11 = emit_signal (OTP otpstr) (emit_signal (SerialNumber snstr)
                                (emit_signal (FlashSize flashsize)
                                  (emit_signal (BootloaderRev bootloaderrev)
                                    (emit_signal (BoardId boardid)
                                      (emit_signal (BoardRev boardrev) st10)))))
                   in Some (Return, snd (erase_and_flash st11)))))))))"

text \<open>The loop \<open>for (retry = 0; retry < 5; retry++)\<close>, entered with the port open. A
  failed SYNC and every \<open>continue\<close> of the body lead to the next retry; after the
  fifth, \<open>run\<close> ends.\<close>

function sync_loop :: "nat \<Rightarrow> nat \<Rightarrow> uploader \<Rightarrow> uploader option" where
  "sync_loop fuel retry st =
     (if retry < 5 then
        (let st1 = port_write [0x21, 0x20] st;
             (sync, st2) = get_sync st1
         in if sync = 0 then
              (case query_and_flash fuel st2 of
                 None \<Rightarrow> None
               | Some (Continue, st3) \<Rightarrow> sync_loop fuel (retry + 1) st3
               | Some (Return, st3) \<Rightarrow> Some st3)
            else sync_loop fuel (retry + 1) st2)
      else Some st)"
  by pat_completeness auto
termination
  by (relation "measure (\<lambda>(fuel, retry, st). 5 - retry)") auto

declare sync_loop.simps [simp del]

subsection \<open>Decoding the firmware file\<close>

text \<open>The loop that pads the decompressed image to a multiple of 4 bytes.\<close>

function pad4 :: "byte list \<Rightarrow> byte list" where
  "pad4 uncompressed =
     (if length uncompressed mod 4 \<noteq> 0 then pad4 (uncompressed @ [0xFF]) else uncompressed)"
  by pat_completeness auto
termination
proof (relation "measure (\<lambda>u. (4 - length u mod 4) mod 4)", goal_cases)
  case 1
  show ?case by simp
next
  case (2 uncompressed)
  then have "length uncompressed mod 4 = 1 \<or> length uncompressed mod 4 = 2
             \<or> length uncompressed mod 4 = 3" by arith
  then show ?case by (auto simp: mod_Suc)
qed

declare pad4.simps [simp del]

text \<open>The fields cut out of the file's text by \<open>split\<close>, \<open>last\<close> and \<open>first\<close>.\<close>

definition board_id_field :: "string \<Rightarrow> string list" where
  \<open>board_id_field jsonstring = qsplit '','' (last (qsplit ''"board_id":'' jsonstring))\<close>

definition image_size_field :: "string \<Rightarrow> string list" where
  \<open>image_size_field jsonstring = qsplit '','' (last (qsplit ''"image_size":'' jsonstring))\<close>

definition description_field :: "string \<Rightarrow> string list" where
  \<open>description_field jsonstring = qsplit ''"'' (last (qsplit ''"description": "'' jsonstring))\<close>

definition image_field :: "string \<Rightarrow> string list" where
  \<open>image_field jsonstring = qsplit ''"'' (last (qsplit ''"image": "'' jsonstring))\<close>

text \<open>\<open>QString::toUtf8\<close> on ASCII text.\<close>

definition toUtf8 :: "string \<Rightarrow> byte list" where
  "toUtf8 s = map of_char s"

text \<open>The buffer handed to \<open>qUncompress\<close>: the declared size as 4 bytes, most
  significant first, then the base64-decoded image. \<open>fromBase64\<close> stands for
  \<open>QByteArray::fromBase64\<close>.\<close>

definition fwimage :: "(byte list \<Rightarrow> byte list) \<Rightarrow> cint \<Rightarrow> string \<Rightarrow> byte list" where
  "fwimage fromBase64 fwsize raw64 =
     [ucast (signed_drop_bit 24 fwsize AND 0xFF), ucast (signed_drop_bit 16 fwsize AND 0xFF),
      ucast (signed_drop_bit 8 fwsize AND 0xFF), ucast (signed_drop_bit 0 fwsize AND 0xFF)]
     @ fromBase64 (toUtf8 raw64)"

text \<open>How a call of \<open>loadFile\<close> ends: it returns false; or it reaches the end of the
  function, which has no return statement, so that the caller receives no defined value;
  or it calls \<open>close\<close> through \<open>m_port\<close> while the pointer is unset or the port
  object deleted, which is undefined behaviour.\<close>

datatype load_result = ReturnedFalse | EndReached | InvalidPortUsed

text \<open>\<open>loadFile\<close> on the text of the file. \<open>fromBase64\<close> and \<open>qUncompress\<close> stand
  for the Qt functions of these names. On a size mismatch the function calls
  \<open>m_port->close()\<close> before it returns false. When the sizes agree it stores the
  padded image in a new temporary file and starts the upload thread.\<close>

definition loadFile ::
  "(byte list \<Rightarrow> byte list) \<Rightarrow> (byte list \<Rightarrow> byte list) \<Rightarrow> string \<Rightarrow> uploader
   \<Rightarrow> load_result \<times> uploader" where
  "loadFile fromBase64 qUncompress jsonstring st =
     (if length (board_id_field jsonstring) < 1 then (ReturnedFalse, st)
      else
     (let st1 = st\<lparr>m_loadedBoardID := toInt (trimmed (hd (board_id_field jsonstring)))\<rparr>
      in if length (image_size_field jsonstring) < 1 then (ReturnedFalse, st1)
         else
     (let st2 = st1\<lparr>m_loadedFwSize := toInt (trimmed (hd (image_size_field jsonstring)))\<rparr>
      in if length (description_field jsonstring) < 1 then (ReturnedFalse, st2)
         else
     (let st3 = st2\<lparr>m_loadedDescription := trimmed (hd (description_field jsonstring))\<rparr>;
          uncompressed = qUncompress
                           (fwimage fromBase64 (m_loadedFwSize st3) (hd (image_field jsonstring)))
      in if int (length uncompressed) \<noteq> sint (m_loadedFwSize st3)
         then (if port_assigned st3 \<and> \<not> port_deleted st3
               then (ReturnedFalse, port_close st3)
               else (InvalidPortUsed, st3))
         else (EndReached, st3\<lparr>tf_content := pad4 uncompressed, tf_pos := 0, tf_open := False,
                               tf_deleted := False, started := True\<rparr>)))))"

text \<open>The declared size that \<open>loadFile\<close> reads from the file's text.\<close>

definition declared_size :: "string \<Rightarrow> cint" where
  "declared_size jsonstring = toInt (trimmed (hd (image_size_field jsonstring)))"

text \<open>What \<open>loadFile\<close> decompresses.\<close>

definition decompressed ::
  "(byte list \<Rightarrow> byte list) \<Rightarrow> (byte list \<Rightarrow> byte list) \<Rightarrow> string \<Rightarrow> byte list" where
  "decompressed fromBase64 qUncompress jsonstring =
     qUncompress (fwimage fromBase64 (declared_size jsonstring) (hd (image_field jsonstring)))"

text \<open>A firmware file with an image of 5 bytes, and stand-ins for the two Qt functions
  under which the image text is its own decoding and decompression.\<close>

definition sample_px4 :: string where
  \<open>sample_px4 = ''{"board_id": 9, "image_size": 5, "description": "demo", "image": "HELLO"}''\<close>

definition plain_base64 :: "byte list \<Rightarrow> byte list" where
  "plain_base64 bs = bs"

definition strip_header :: "byte list \<Rightarrow> byte list" where
  "strip_header bs = drop 4 bs"

text \<open>A decompression that fails: \<open>qUncompress\<close> then returns an empty array.\<close>

definition failed_uncompress :: "byte list \<Rightarrow> byte list" where
  "failed_uncompress bs = []"

text \<open>An uploader as the constructor leaves it: no port object, no temporary file.\<close>

definition blank_uploader :: uploader where
  "blank_uploader =
     \<lparr>m_loadedBoardID = 0, m_loadedFwSize = 0, m_loadedDescription = [], started = False,
      m_serialBuffer = [], m_stop = False, port_events = [], port_rx = [],
      port_written = [], port_open = False, port_deleted = False, port_assigned = False,
      tf_content = [],
      tf_pos = 0, tf_open = False, tf_deleted = False, signals = []\<rparr>"

subsection \<open>States between the steps of a loop body\<close>

text \<open>The state once the serial-number request for address \<open>i\<close> is written.\<close>

definition sn_requested :: "nat \<Rightarrow> uploader \<Rightarrow> uploader" where
  "sn_requested i st = port_write [0x2B, word_of_nat i, 0, 0, 0, 0x20] (port_clear st)"

text \<open>The state in which the loop goes on after a short read at address \<open>i\<close>: the read
  of 4 bytes has given up, the driver has waited once more for data and has read away
  everything the port holds.\<close>

definition sn_retry_state :: "nat \<Rightarrow> uploader \<Rightarrow> uploader" where
  "sn_retry_state i st =
     port_drain (snd (port_waitForReadyRead (snd (readBytes 4 (sn_requested i st)))))"

text \<open>The state once the frame of the next chunk is written, and the state once ERASE
  is written again after that frame was not acknowledged.\<close>

definition chunk_sent :: "uploader \<Rightarrow> uploader" where
  "chunk_sent st =
     port_write (program_multi_frame (fst (tf_read 60 st))) (port_clear (snd (tf_read 60 st)))"

definition erase_resent :: "uploader \<Rightarrow> uploader" where
  "erase_resent st =
     port_write [0x23, 0x20] (port_clear
       (emit_signal (StatusUpdate ''Erasing flash, this may take up to a minute'')
          (snd (get_sync (chunk_sent st)))))"

subsection \<open>Example states\<close>

text \<open>An uploader whose port is open and whose temporary file holds \<open>payload\<close>;
  \<open>events\<close> is what the device will do: each wait for data takes the next entry,
  \<open>Some bs\<close> for the arrival of \<open>bs\<close> and \<open>None\<close> for a timeout, and after the
  last entry every wait times out.\<close>

definition idle_uploader :: "byte list \<Rightarrow> byte list option list \<Rightarrow> uploader" where
  "idle_uploader payload events =
     \<lparr>m_loadedBoardID = 9, m_loadedFwSize = of_nat (length payload),
      m_loadedDescription = [], started = True, m_serialBuffer = [], m_stop = False, port_events = events, port_rx = [],
      port_written = [], port_open = True, port_deleted = False, port_assigned = True,
      tf_content = payload,
      tf_pos = 0, tf_open = False, tf_deleted = False, signals = []\<rparr>"

text \<open>The sync footer, and a device that answers the three serial-number reads.\<close>

definition ack :: "byte list option" where
  "ack = Some [0x12, 0x10]"

definition sn_script :: "byte list option list" where
  "sn_script = [Some [1, 2, 3, 4], ack, Some [5, 6, 7, 8], ack, Some [9, 10, 11, 12], ack]"

text \<open>An uploader about to enter the programming loop: the temporary file is open at
  offset 0.\<close>

definition flash_ready :: "byte list \<Rightarrow> byte list option list \<Rightarrow> uploader" where
  "flash_ready payload events = tf_open_file (idle_uploader payload events)"

text \<open>A device that lets the first serial-number read time out, and one that answers it
  with a wrong footer.\<close>

definition sn_timeout_state :: uploader where
  "sn_timeout_state = idle_uploader [] (None # None # sn_script)"

definition sn_bad_sync_state :: uploader where
  "sn_bad_sync_state = idle_uploader [] [Some [1, 2, 3, 4], Some [0x12, 0x11]]"

section \<open>Properties\<close>

lemma file_read_length: "length (file_read 60 pos content) \<le> 60"
  by (simp add: file_read_def)

text \<open>C6: for every chunk of at most 60 bytes, the PROGRAM_MULTI frame has length
  3 + chunk length, starts with 0x27, carries the chunk length in its second byte, then
  the chunk bytes unchanged, and ends with 0x20.\<close>

theorem program_multi_frame_layout:
  assumes "length buf \<le> 60"
  shows "length (program_multi_frame buf) = 3 + length buf
       \<and> program_multi_frame buf ! 0 = 0x27
       \<and> unat (program_multi_frame buf ! 1) = length buf
       \<and> take (length buf) (drop 2 (program_multi_frame buf)) = buf
       \<and> last (program_multi_frame buf) = 0x20"
proof -
  have "unat (of_nat (length buf) :: byte) = length buf"
    using assms by (simp add: unat_of_nat)
  then show ?thesis
    by (simp add: program_multi_frame_def)
qed

theorem program_multi_frame_layout_witness:
  "length (file_read 60 0 [1, 2, 3, 4 :: byte]) \<le> 60
   \<and> program_multi_frame (file_read 60 0 [1, 2, 3, 4]) = [0x27, 4, 1, 2, 3, 4, 0x20]
   \<and> length (program_multi_frame (file_read 60 0 [1, 2, 3, 4])) = 3 + 4
   \<and> last (program_multi_frame (file_read 60 0 [1, 2, 3, 4])) = 0x20"
  using program_multi_frame_layout [of "file_read 60 0 [1, 2, 3, 4]"]
  by (simp add: file_read_def program_multi_frame_def)

text \<open>C5 (the code divides by zero): less than one second after the connection
  started, \<open>getTotalUpstream\<close> and \<open>getTotalDownstream\<close> reach the division with a
  divisor of zero.\<close>

theorem rate_divides_by_zero:
  "fst (getTotalUpstream 500 (fresh_link 0)) = DivisionByZero
   \<and> fst (getTotalDownstream 500 (fresh_link 0)) = DivisionByZero"
  by (simp add: getTotalUpstream_def getTotalDownstream_def fresh_link_def Let_def)

text \<open>C10: \<open>setPortName\<close> returns false for every input; when the name is new and not
  blank it stores the trimmed name, and when the baud map remembers a rate for that name
  the rate becomes the link's baud rate.\<close>

lemma setBaudRate_m_baud: "m_baud (snd (setBaudRate dev rate st)) = rate"
  by (simp add: setBaudRate_def emit_def Let_def split: option.splits prod.splits)

lemma setBaudRate_m_portName: "m_portName (snd (setBaudRate dev rate st)) = m_portName st"
  by (simp add: setBaudRate_def emit_def Let_def split: option.splits prod.splits)

theorem setPortName_returns_false:
  "fst (setPortName dev portName st) = False
   \<and> (portName \<noteq> m_portName st \<and> trimmed portName \<noteq> [] \<longrightarrow>
        m_portName (snd (setPortName dev portName st)) = trimmed portName
        \<and> (contains (m_portBaudMap st) (trimmed portName) \<longrightarrow>
             m_baud (snd (setPortName dev portName st))
               = map_value (m_portBaudMap st) (trimmed portName)))"
  by (simp add: setPortName_def Let_def emit_def setBaudRate_m_baud setBaudRate_m_portName
      split: option.splits)

theorem setPortName_returns_false_witness:
  "'' COM3 '' \<noteq> m_portName remembering_link \<and> trimmed '' COM3 '' \<noteq> []
   \<and> contains (m_portBaudMap remembering_link) (trimmed '' COM3 '')
   \<and> fst (setPortName (\<lambda>_. True) '' COM3 '' remembering_link) = False
   \<and> m_portName (snd (setPortName (\<lambda>_. True) '' COM3 '' remembering_link)) = ''COM3''
   \<and> m_baud (snd (setPortName (\<lambda>_. True) '' COM3 '' remembering_link)) = 57600"
  using setPortName_returns_false
    [where portName = "'' COM3 ''" and st = remembering_link and dev = "\<lambda>_. True"]
  by (simp add: remembering_link_def fresh_link_def trimmed_def isSpace_def contains_def
      map_value_def)

lemma port_waitForReadyRead_fields [simp]:
  "port_written (snd (port_waitForReadyRead st)) = port_written st"
  "m_stop (snd (port_waitForReadyRead st)) = m_stop st"
  "port_open (snd (port_waitForReadyRead st)) = port_open st"
  "tf_deleted (snd (port_waitForReadyRead st)) = tf_deleted st"
  by (simp_all add: port_waitForReadyRead_def split: list.splits option.splits)

lemma wait_read_result:
  "length (m_serialBuffer st) < num \<Longrightarrow>
   fst (wait_read num st) =
     (case port_events st of
        Some bs # es \<Rightarrow>
          (let s = m_serialBuffer st @ port_rx st @ arrivals (port_events st)
           in if length s \<ge> num then (int num, take num s) else (-1, []))
      | _ \<Rightarrow> (-1, []))"
proof (induction num st rule: wait_read.induct)
  case (1 num st)
  show ?case
  proof (cases "port_events st")
    case Nil
    then show ?thesis
      by (subst wait_read.simps) (simp add: port_waitForReadyRead_def)
  next
    case (Cons e es)
    show ?thesis
    proof (cases e)
      case None
      with Cons show ?thesis
        by (subst wait_read.simps) (simp add: port_waitForReadyRead_def)
    next
      case (Some bs)
      let ?st3 = "st\<lparr>port_events := es, port_rx := [], m_serialBuffer := m_serialBuffer st @ port_rx st @ bs\<rparr>"
      show ?thesis
      proof (cases "length (m_serialBuffer st @ port_rx st @ bs) \<ge> num")
        case True
        with Cons Some show ?thesis
          by (subst wait_read.simps) (simp add: port_waitForReadyRead_def port_readAll_def Let_def)
      next
        case False
        have ih: "fst (wait_read num ?st3) =
          (case port_events ?st3 of
             Some bs # es \<Rightarrow>
               (let s = m_serialBuffer ?st3 @ port_rx ?st3 @ arrivals (port_events ?st3)
                in if length s \<ge> num then (int num, take num s) else (-1, []))
           | _ \<Rightarrow> (-1, []))"
          using False Cons Some
          by (intro "1.IH"[of "(True, st\<lparr>port_events := es, port_rx := port_rx st @ bs\<rparr>)" True
                "st\<lparr>port_events := es, port_rx := port_rx st @ bs\<rparr>"
                "(port_rx st @ bs, st\<lparr>port_events := es, port_rx := []\<rparr>)" "port_rx st @ bs"
                "st\<lparr>port_events := es, port_rx := []\<rparr>" ?st3])
             (simp_all add: port_waitForReadyRead_def port_readAll_def)
        have "wait_read num st = wait_read num ?st3"
          using False Cons Some
          by (subst wait_read.simps) (simp add: port_waitForReadyRead_def port_readAll_def Let_def)
        with ih False Cons Some show ?thesis
          by (auto simp: Let_def split: list.splits option.splits)
      qed
    qed
  qed
qed


lemma take2_eq: "2 \<le> length s \<Longrightarrow> (take 2 s = [a, b]) = (take 2 s ! 0 = a \<and> take 2 s ! 1 = b)"
  by (cases s; cases "tl s") auto

lemma readBytes_result:
  "fst (readBytes num st) =
     (if num \<le> length (obtained num st) then (int num, take num (obtained num st)) else (-1, []))"
proof (cases "num \<le> length (m_serialBuffer st)")
  case True
  then show ?thesis by (simp add: readBytes_def obtained_def)
next
  case False
  then have "length (m_serialBuffer st) < num" by simp
  from wait_read_result [OF this] False show ?thesis
    by (auto simp: readBytes_def obtained_def Let_def split: list.splits option.splits)
qed

lemma get_sync_fst:
  "fst (get_sync st) = (if take 2 (obtained 2 st) = [0x12, 0x10] then 0 else -1)"
proof (cases "2 \<le> length (obtained 2 st)")
  case True
  then show ?thesis
    using readBytes_result [of 2 st] take2_eq [OF True, of "0x12" "0x10"]
    by (auto simp: get_sync_def Let_def split: prod.splits)
next
  case False
  then have "take 2 (obtained 2 st) \<noteq> [0x12, 0x10]"
    by (metis length_take min.absorb2 length_Cons list.size(3) One_nat_def Suc_1 nat_le_linear take_all)
  with False show ?thesis
    using readBytes_result [of 2 st]
    by (auto simp: get_sync_def Let_def split: prod.splits)
qed

text \<open>C7: \<open>get_sync\<close> returns 0 exactly when the first two bytes obtained before the
  timeout are 0x12, 0x10, and -1 for any other pair and when fewer than two bytes
  arrive.\<close>

theorem get_sync_recognises_footer:
  "fst (get_sync st) = (if take 2 (obtained 2 st) = [0x12, 0x10] then 0 else -1)"
  by (rule get_sync_fst)

theorem get_sync_recognises_footer_witness:
  "fst (get_sync (idle_uploader [] [Some [0x12], Some [0x10, 0x33]])) = 0
   \<and> fst (get_sync (idle_uploader [] [Some [0x12, 0x11]])) = -1
   \<and> fst (get_sync (idle_uploader [] [Some [0x12], None, Some [0x10]])) = -1"
  using get_sync_recognises_footer [of "idle_uploader [] [Some [0x12], Some [0x10, 0x33]]"]
    get_sync_recognises_footer [of "idle_uploader [] [Some [0x12, 0x11]]"]
    get_sync_recognises_footer [of "idle_uploader [] [Some [0x12], None, Some [0x10]]"]
  by (simp add: obtained_def idle_uploader_def)

text \<open>C1 (the code accepts a wrong header): an OTP buffer of 512 zero bytes does not
  start with the magic 80, 88, 52, 0, yet the header test does not reject it, and the
  driver goes on to read the serial number.\<close>

theorem otp_blank_header_accepted:
  "take 4 (replicate 512 (0::byte)) \<noteq> [80, 88, 52, 0]
   \<and> \<not> otp_header_failure (replicate 512 0)
   \<and> after_otp_read 4 (replicate 512 0) (idle_uploader [] sn_script)
       = Some (V4Ok (otp_format (replicate 512 0)) ''04 03 02 01 08 07 06 05 0C 0B 0A 09 ''
           ((idle_uploader [] [])\<lparr>
              port_written := [[0x2B, 0, 0, 0, 0, 0x20], [0x2B, 4, 0, 0, 0, 0x20],
                               [0x2B, 8, 0, 0, 0, 0x20]],
              signals := [StatusUpdate ''Requesting board SN'', StatusUpdate ''Verifying OTP'']\<rparr>))"
proof -
  have a: "take 4 (replicate 512 (0::byte)) \<noteq> [80, 88, 52, 0]
           \<and> \<not> otp_header_failure (replicate 512 0)"
    by code_simp
  have b: "sn_loop 4 0 (replicate 12 0)
             (emit_signal (StatusUpdate ''Requesting board SN'') (idle_uploader [] sn_script))
           = Some (False, [4, 3, 2, 1, 8, 7, 6, 5, 12, 11, 10, 9],
               (idle_uploader [] [])\<lparr>
                 port_written := [[0x2B, 0, 0, 0, 0, 0x20], [0x2B, 4, 0, 0, 0, 0x20],
                                  [0x2B, 8, 0, 0, 0, 0x20]],
                 signals := [StatusUpdate ''Requesting board SN'']\<rparr>)"
    by code_simp
  have c: "sn_format [4, 3, 2, 1, 8, 7, 6, 5, 12, 11, 10, 9]
           = ''04 03 02 01 08 07 06 05 0C 0B 0A 09 ''"
    by code_simp
  show ?thesis
    using a b c by (simp add: after_otp_read_def Let_def emit_signal_def idle_uploader_def)
qed




text \<open>C2 as stated fails: with a payload of two chunks, the second chunk fails three
  times, each time after the first chunk was acknowledged again, and the third failure is
  fatal although no two failures were consecutive.\<close>

theorem program_spaced_failures_fatal:
  "fst (program_loop 0 0
          (flash_ready (replicate 64 0xFF) [ack, None, ack, ack, None, ack, ack, None]))
     = Some WriteFailed
   \<and> port_written (snd (program_loop 0 0
          (flash_ready (replicate 64 0xFF) [ack, None, ack, ack, None, ack, ack, None])))
     = [program_multi_frame (replicate 60 0xFF), program_multi_frame (replicate 4 0xFF),
        [0x23, 0x20],
        program_multi_frame (replicate 60 0xFF), program_multi_frame (replicate 4 0xFF),
        [0x23, 0x20],
        program_multi_frame (replicate 60 0xFF), program_multi_frame (replicate 4 0xFF)]"
  by code_simp

text \<open>C2, amended: while the payload is not exhausted, an acknowledged chunk leaves the
  failure counter as it is and moves on by the chunk's length; a chunk that is not
  acknowledged when the counter already stands at 2 or more ends the upload as fatal, with
  the port closed and the temporary file deleted; a chunk that is not acknowledged when
  the counter is below 2 adds one to the counter, writes ERASE again and, when the erase
  is acknowledged, goes on from offset 0.\<close>

theorem program_failure_handling:
  assumes "\<not> tf_atEnd st"
  shows
    "(take 2 (obtained 2 (chunk_sent st)) = [0x12, 0x10] \<and> \<not> m_stop st \<longrightarrow>
        (\<exists>st'. program_loop counter failure st = program_loop (counter + 1) failure st'
              \<and> tf_pos st' = tf_pos st + length (fst (tf_read 60 st))))
     \<and> (take 2 (obtained 2 (chunk_sent st)) \<noteq> [0x12, 0x10] \<and> 2 \<le> failure \<longrightarrow>
          fst (program_loop counter failure st) = Some WriteFailed
          \<and> \<not> port_open (snd (program_loop counter failure st))
          \<and> tf_deleted (snd (program_loop counter failure st)))
     \<and> (take 2 (obtained 2 (chunk_sent st)) \<noteq> [0x12, 0x10] \<and> failure < 2
          \<and> take 2 (obtained 2 (erase_resent st)) = [0x12, 0x10] \<longrightarrow>
        (\<exists>st'. program_loop counter failure st = program_loop counter (failure + 1) st'
              \<and> tf_pos st' = 0
              \<and> port_written st' = port_written st
                   @ [program_multi_frame (fst (tf_read 60 st)), [0x23, 0x20]]))"
proof -
  obtain buf st1 where r: "tf_read 60 st = (buf, st1)" by (metis prod.collapse)
  have cs: "chunk_sent st = port_write (program_multi_frame buf) (port_clear st1)"
    using r by (simp add: chunk_sent_def)
  obtain sync st3 where g: "get_sync (chunk_sent st) = (sync, st3)" by (metis prod.collapse)
  have s3: "snd (get_sync (chunk_sent st)) = st3" using g by simp
  have sync: "sync = (if take 2 (obtained 2 (chunk_sent st)) = [0x12, 0x10] then 0 else -1)"
    using get_sync_fst [of "chunk_sent st"] g by simp
  have lt: "tf_pos st < length (tf_content st)" using assms by (simp add: tf_atEnd_def)
  have nonempty: "0 < length buf"
    using r lt by (auto simp: tf_read_def file_read_def Let_def)
  have st1: "tf_pos st1 = tf_pos st + length buf" "m_stop st1 = m_stop st"
    "port_written st1 = port_written st"
    using r by (auto simp: tf_read_def Let_def)
  have f3: "tf_pos st3 = tf_pos st + length buf" "m_stop st3 = m_stop st"
    "port_written st3 = port_written st @ [program_multi_frame buf]"
    using st1 get_sync_tf(1) [of "chunk_sent st"] get_sync_fields(6) [of "chunk_sent st"]
      get_sync_fields(3) [of "chunk_sent st"]
    unfolding s3 by (simp_all add: cs port_write_def port_clear_def)
  have unfold: "program_loop counter failure st =
      (case program_chunk counter failure st of
         Again counter' failure' st' \<Rightarrow> program_loop counter' failure' st'
       | Exit r st' \<Rightarrow> (Some r, st'))"
    using assms by (subst program_loop.simps) simp
  have a: "take 2 (obtained 2 (chunk_sent st)) = [0x12, 0x10] \<and> \<not> m_stop st \<longrightarrow>
        (\<exists>st'. program_loop counter failure st = program_loop (counter + 1) failure st'
              \<and> tf_pos st' = tf_pos st + length (fst (tf_read 60 st)))"
  proof
    assume h: "take 2 (obtained 2 (chunk_sent st)) = [0x12, 0x10] \<and> \<not> m_stop st"
    then have z: "sync = 0" using sync by simp
    let ?st4 = "if counter mod 50 = 0
                then emit_signal (FlashProgress (tf_pos st3) (length (tf_content st3))) st3
                else st3"
    have "program_chunk counter failure st = Again (counter + 1) failure ?st4"
      using r g [unfolded cs] z h f3 nonempty
      by (simp add: program_chunk_def Let_def emit_signal_def)
    then have "program_loop counter failure st = program_loop (counter + 1) failure ?st4"
      using unfold by simp
    moreover have "tf_pos ?st4 = tf_pos st + length (fst (tf_read 60 st))"
      using f3 r by (simp add: emit_signal_def)
    ultimately show "\<exists>st'. program_loop counter failure st = program_loop (counter + 1) failure st'
              \<and> tf_pos st' = tf_pos st + length (fst (tf_read 60 st))" by blast
  qed
  have b: "take 2 (obtained 2 (chunk_sent st)) \<noteq> [0x12, 0x10] \<and> 2 \<le> failure \<longrightarrow>
          fst (program_loop counter failure st) = Some WriteFailed
          \<and> \<not> port_open (snd (program_loop counter failure st))
          \<and> tf_deleted (snd (program_loop counter failure st))"
  proof
    assume h: "take 2 (obtained 2 (chunk_sent st)) \<noteq> [0x12, 0x10] \<and> 2 \<le> failure"
    then have z: "sync \<noteq> 0" using sync by simp
    have "program_chunk counter failure st = Exit WriteFailed
            (tf_delete (tf_close (port_close
               (emit_signal (Error ''Error writing firmware, invalid sync. Please retry'') st3))))"
      using r g [unfolded cs] z h nonempty
      by (simp add: program_chunk_def Let_def)
    then show "fst (program_loop counter failure st) = Some WriteFailed
          \<and> \<not> port_open (snd (program_loop counter failure st))
          \<and> tf_deleted (snd (program_loop counter failure st))"
      using unfold by (simp add: tf_delete_def tf_close_def port_close_def emit_signal_def)
  qed
  have c: "take 2 (obtained 2 (chunk_sent st)) \<noteq> [0x12, 0x10] \<and> failure < 2
          \<and> take 2 (obtained 2 (erase_resent st)) = [0x12, 0x10] \<longrightarrow>
        (\<exists>st'. program_loop counter failure st = program_loop counter (failure + 1) st'
              \<and> tf_pos st' = 0
              \<and> port_written st' = port_written st
                   @ [program_multi_frame (fst (tf_read 60 st)), [0x23, 0x20]])"
  proof
    assume h: "take 2 (obtained 2 (chunk_sent st)) \<noteq> [0x12, 0x10] \<and> failure < 2
          \<and> take 2 (obtained 2 (erase_resent st)) = [0x12, 0x10]"
    then have z: "sync \<noteq> 0" using sync by simp
    have er: "erase_resent st = port_write [0x23, 0x20] (port_clear
       (emit_signal (StatusUpdate ''Erasing flash, this may take up to a minute'') st3))"
      using s3 by (simp add: erase_resent_def)
    obtain sync2 st6 where g2: "get_sync (erase_resent st) = (sync2, st6)"
      by (metis prod.collapse)
    have s6: "snd (get_sync (erase_resent st)) = st6" using g2 by simp
    have z2: "sync2 = 0" using get_sync_fst [of "erase_resent st"] g2 h by simp
    have w6: "port_written st6 = port_written st @ [program_multi_frame buf, [0x23, 0x20]]"
      using get_sync_fields(3) [of "erase_resent st"] f3
      unfolding s6 by (simp add: er port_write_def port_clear_def emit_signal_def)
    have "program_chunk counter failure st = Again counter (failure + 1) (tf_seek 0 st6)"
      using r g [unfolded cs] g2 [unfolded er] z z2 h nonempty
      by (simp add: program_chunk_def Let_def)
    then have "program_loop counter failure st
             = program_loop counter (failure + 1) (tf_seek 0 st6)"
      using unfold by simp
    moreover have "tf_pos (tf_seek 0 st6) = 0" by (simp add: tf_seek_def)
    moreover have "port_written (tf_seek 0 st6) = port_written st
                   @ [program_multi_frame (fst (tf_read 60 st)), [0x23, 0x20]]"
      using w6 r by (simp add: tf_seek_def)
    ultimately show "\<exists>st'. program_loop counter failure st = program_loop counter (failure + 1) st'
              \<and> tf_pos st' = 0
              \<and> port_written st' = port_written st
                   @ [program_multi_frame (fst (tf_read 60 st)), [0x23, 0x20]]" by blast
  qed
  from a b c show ?thesis by blast
qed


theorem program_failure_handling_witness:
  "\<not> tf_atEnd (flash_ready [1, 2, 3, 4, 5, 6, 7, 8] [ack])
   \<and> take 2 (obtained 2 (chunk_sent (flash_ready [1, 2, 3, 4, 5, 6, 7, 8] [ack]))) = [0x12, 0x10]
   \<and> \<not> m_stop (flash_ready [1, 2, 3, 4, 5, 6, 7, 8] [ack])
   \<and> (\<exists>st'. program_loop 0 0 (flash_ready [1, 2, 3, 4, 5, 6, 7, 8] [ack])
               = program_loop (0 + 1) 0 st'
             \<and> tf_pos st' = tf_pos (flash_ready [1, 2, 3, 4, 5, 6, 7, 8] [ack])
                  + length (fst (tf_read 60 (flash_ready [1, 2, 3, 4, 5, 6, 7, 8] [ack]))))
   \<and> \<not> tf_atEnd (flash_ready [1, 2, 3, 4, 5, 6, 7, 8] [])
   \<and> take 2 (obtained 2 (chunk_sent (flash_ready [1, 2, 3, 4, 5, 6, 7, 8] []))) \<noteq> [0x12, 0x10]
   \<and> (2::nat) \<le> 2
   \<and> fst (program_loop 0 2 (flash_ready [1, 2, 3, 4, 5, 6, 7, 8] [])) = Some WriteFailed
   \<and> \<not> port_open (snd (program_loop 0 2 (flash_ready [1, 2, 3, 4, 5, 6, 7, 8] [])))
   \<and> tf_deleted (snd (program_loop 0 2 (flash_ready [1, 2, 3, 4, 5, 6, 7, 8] [])))
   \<and> \<not> tf_atEnd (flash_ready [1, 2, 3, 4, 5, 6, 7, 8] [None, ack])
   \<and> take 2 (obtained 2 (chunk_sent (flash_ready [1, 2, 3, 4, 5, 6, 7, 8] [None, ack])))
        \<noteq> [0x12, 0x10]
   \<and> (0::nat) < 2
   \<and> take 2 (obtained 2 (erase_resent (flash_ready [1, 2, 3, 4, 5, 6, 7, 8] [None, ack])))
        = [0x12, 0x10]
   \<and> (\<exists>st'. program_loop 0 0 (flash_ready [1, 2, 3, 4, 5, 6, 7, 8] [None, ack])
               = program_loop 0 (0 + 1) st'
             \<and> tf_pos st' = 0
             \<and> port_written st' = port_written (flash_ready [1, 2, 3, 4, 5, 6, 7, 8] [None, ack])
                  @ [program_multi_frame
                       (fst (tf_read 60 (flash_ready [1, 2, 3, 4, 5, 6, 7, 8] [None, ack]))),
                     [0x23, 0x20]])"
proof -
  have e1: "\<not> tf_atEnd (flash_ready [1, 2, 3, 4, 5, 6, 7, 8] [ack])" by code_simp
  have h1: "take 2 (obtained 2 (chunk_sent (flash_ready [1, 2, 3, 4, 5, 6, 7, 8] [ack])))
              = [0x12, 0x10]
            \<and> \<not> m_stop (flash_ready [1, 2, 3, 4, 5, 6, 7, 8] [ack])" by code_simp
  have e2: "\<not> tf_atEnd (flash_ready [1, 2, 3, 4, 5, 6, 7, 8] [])" by code_simp
  have h2: "take 2 (obtained 2 (chunk_sent (flash_ready [1, 2, 3, 4, 5, 6, 7, 8] [])))
              \<noteq> [0x12, 0x10] \<and> (2::nat) \<le> 2" by code_simp
  have e3: "\<not> tf_atEnd (flash_ready [1, 2, 3, 4, 5, 6, 7, 8] [None, ack])" by code_simp
  have h3: "take 2 (obtained 2 (chunk_sent (flash_ready [1, 2, 3, 4, 5, 6, 7, 8] [None, ack])))
              \<noteq> [0x12, 0x10] \<and> (0::nat) < 2
            \<and> take 2 (obtained 2 (erase_resent (flash_ready [1, 2, 3, 4, 5, 6, 7, 8] [None, ack])))
              = [0x12, 0x10]" by code_simp
  note c1 = program_failure_handling [OF e1, THEN conjunct1, rule_format, OF h1]
  note c2 = program_failure_handling [OF e2, THEN conjunct2, THEN conjunct1, rule_format, OF h2]
  note c3 = program_failure_handling [OF e3, THEN conjunct2, THEN conjunct2, rule_format, OF h3]
  show ?thesis
    using e1 h1 e2 h2 e3 h3 c1 [of 0 0] c2 [of 0] c3 [of 0] by simp
qed

text \<open>C4 (the code returns without cleaning up): when the erase is never acknowledged,
  before programming or after a failed chunk, \<open>run\<close> returns with the port still open
  and the temporary file still there, and no error signal is sent.\<close>

theorem erase_timeout_leaves_resources:
  "fst (erase_and_flash (idle_uploader [1, 2, 3, 4] [])) = Failed EraseTimeout
   \<and> port_open (snd (erase_and_flash (idle_uploader [1, 2, 3, 4] [])))
   \<and> \<not> tf_deleted (snd (erase_and_flash (idle_uploader [1, 2, 3, 4] [])))
   \<and> signals (snd (erase_and_flash (idle_uploader [1, 2, 3, 4] [])))
       = [StatusUpdate ''Erasing flash, this may take up to a minute'']
   \<and> fst (erase_and_flash (idle_uploader [1, 2, 3, 4] [ack])) = Failed EraseTimeout
   \<and> port_open (snd (erase_and_flash (idle_uploader [1, 2, 3, 4] [ack])))
   \<and> \<not> tf_deleted (snd (erase_and_flash (idle_uploader [1, 2, 3, 4] [ack])))
   \<and> port_written (snd (erase_and_flash (idle_uploader [1, 2, 3, 4] [ack])))
       = [[0x23, 0x20], program_multi_frame [1, 2, 3, 4], [0x23, 0x20]]"
  by code_simp

lemma split_from_nonempty: "split_from sep piece s \<noteq> []"
proof (induction sep piece s rule: split_from.induct)
  case (1 sep piece s)
  show ?case
  proof (cases "s = []")
    case True
    then show ?thesis by (subst split_from.simps) simp
  next
    case False
    show ?thesis
    proof (cases "sep \<noteq> [] \<and> take (length sep) s = sep")
      case True
      with False show ?thesis by (subst split_from.simps) simp
    next
      case no: False
      have "split_from sep (piece @ [hd s]) (tl s) \<noteq> []"
        using "1.IH"(2) False no by blast
      then show ?thesis using False no by (subst split_from.simps) auto
    qed
  qed
qed

lemma qsplit_length: "1 \<le> length (qsplit sep s)"
  using split_from_nonempty [of sep "[]" s]
  by (cases "split_from sep [] s") (simp_all add: qsplit_def)

lemma pad4_eq: "pad4 u = u @ replicate ((4 - length u mod 4) mod 4) 0xFF"
proof (induction u rule: pad4.induct)
  case (1 u)
  show ?case
  proof (cases "length u mod 4 \<noteq> 0")
    case False
    then show ?thesis by (subst pad4.simps) simp
  next
    case True
    then have m: "length u mod 4 = 1 \<or> length u mod 4 = 2 \<or> length u mod 4 = 3" by arith
    have "pad4 u = pad4 (u @ [0xFF])" using True by (subst pad4.simps) simp
    also have "\<dots> = (u @ [0xFF]) @ replicate ((4 - length (u @ [0xFF]) mod 4) mod 4) 0xFF"
      using "1.IH" True by simp
    also have "\<dots> = u @ replicate (Suc ((4 - length (u @ [0xFF]) mod 4) mod 4)) 0xFF"
      by simp
    also have "Suc ((4 - length (u @ [0xFF]) mod 4) mod 4) = (4 - length u mod 4) mod 4"
      using m by (auto simp: mod_Suc)
    finally show ?thesis .
  qed
qed

lemma pad4_props:
  "length (pad4 u) mod 4 = 0"
  "length u \<le> length (pad4 u)"
  "length (pad4 u) < length u + 4"
  "take (length u) (pad4 u) = u"
  "set (drop (length u) (pad4 u)) \<subseteq> {0xFF}"
proof -
  define k where "k = (4 - length u mod 4) mod 4"
  have e: "pad4 u = u @ replicate k 0xFF" by (simp add: pad4_eq k_def)
  have "length u mod 4 = 0 \<or> length u mod 4 = 1 \<or> length u mod 4 = 2 \<or> length u mod 4 = 3"
    by arith
  then have "(length u + k) mod 4 = 0"
    unfolding k_def by (elim disjE) (simp_all add: mod_Suc numeral_3_eq_3 del: One_nat_def)
  then show "length (pad4 u) mod 4 = 0" by (simp add: e)
  have "k < 4" by (simp add: k_def)
  then show "length (pad4 u) < length u + 4" by (simp add: e)
  show "length u \<le> length (pad4 u)" by (simp add: e)
  show "take (length u) (pad4 u) = u" by (simp add: e)
  show "set (drop (length u) (pad4 u)) \<subseteq> {0xFF}" by (auto simp: e)
qed

lemma qsplit_not_less: "\<not> length (qsplit sep s) < 1"
  by (metis qsplit_length not_less)

text \<open>What \<open>loadFile\<close> does for every file and every state: when the decompressed
  image has exactly the declared size it reaches its end, with the upload started and a
  payload stored whose length is the smallest multiple of 4 not below that size, the image
  followed by bytes 0xFF only; when the sizes differ it stores no payload and does not
  start the upload, and it returns false only if \<open>m_port\<close> points to a port object.\<close>

lemma loadFile_outcomes:
  "(int (length (decompressed fromBase64 qUncompress jsonstring)) = sint (declared_size jsonstring) \<longrightarrow>
      fst (loadFile fromBase64 qUncompress jsonstring st) = EndReached
      \<and> started (snd (loadFile fromBase64 qUncompress jsonstring st))
      \<and> length (tf_content (snd (loadFile fromBase64 qUncompress jsonstring st))) mod 4 = 0
      \<and> length (decompressed fromBase64 qUncompress jsonstring)
          \<le> length (tf_content (snd (loadFile fromBase64 qUncompress jsonstring st)))
      \<and> length (tf_content (snd (loadFile fromBase64 qUncompress jsonstring st)))
          < length (decompressed fromBase64 qUncompress jsonstring) + 4
      \<and> take (length (decompressed fromBase64 qUncompress jsonstring))
            (tf_content (snd (loadFile fromBase64 qUncompress jsonstring st)))
          = decompressed fromBase64 qUncompress jsonstring
      \<and> set (drop (length (decompressed fromBase64 qUncompress jsonstring))
                 (tf_content (snd (loadFile fromBase64 qUncompress jsonstring st)))) \<subseteq> {0xFF})
   \<and> (int (length (decompressed fromBase64 qUncompress jsonstring)) \<noteq> sint (declared_size jsonstring) \<longrightarrow>
      fst (loadFile fromBase64 qUncompress jsonstring st)
        = (if port_assigned st \<and> \<not> port_deleted st then ReturnedFalse else InvalidPortUsed)
      \<and> started (snd (loadFile fromBase64 qUncompress jsonstring st)) = started st
      \<and> tf_content (snd (loadFile fromBase64 qUncompress jsonstring st)) = tf_content st)"
proof -
  let ?u = "decompressed fromBase64 qUncompress jsonstring"
  let ?st3 = "st\<lparr>m_loadedBoardID := toInt (trimmed (hd (board_id_field jsonstring))),
                    m_loadedFwSize := declared_size jsonstring,
                    m_loadedDescription := trimmed (hd (description_field jsonstring))\<rparr>"
  have f: "\<not> length (board_id_field jsonstring) < 1"
    "\<not> length (image_size_field jsonstring) < 1"
    "\<not> length (description_field jsonstring) < 1"
    by (simp_all only: board_id_field_def image_size_field_def description_field_def
        qsplit_not_less not_False_eq_True)
  have ok: "int (length ?u) = sint (declared_size jsonstring) \<Longrightarrow>
      loadFile fromBase64 qUncompress jsonstring st =
        (EndReached, ?st3\<lparr>tf_content := pad4 ?u, tf_pos := 0, tf_open := False,
                    tf_deleted := False, started := True\<rparr>)"
    using f by (simp add: loadFile_def Let_def decompressed_def declared_size_def)
  have bad: "int (length ?u) \<noteq> sint (declared_size jsonstring) \<Longrightarrow>
      loadFile fromBase64 qUncompress jsonstring st =
        (if port_assigned st \<and> \<not> port_deleted st then (ReturnedFalse, port_close ?st3)
         else (InvalidPortUsed, ?st3))"
    using f by (simp add: loadFile_def Let_def decompressed_def declared_size_def)
  show ?thesis
  proof (cases "int (length ?u) = sint (declared_size jsonstring)")
    case True
    show ?thesis using True pad4_props [of ?u] by (simp add: ok [OF True])
  next
    case False
    show ?thesis using False by (simp add: bad [OF False] port_close_def)
  qed
qed

text \<open>C8 (the code uses an unset pointer and returns no value): on an uploader as the
  constructor leaves it, a file whose image does not decompress to the declared size
  makes \<open>loadFile\<close> call \<open>close\<close> through the unset \<open>m_port\<close> instead of returning
  false, and a file whose image has the declared size makes it reach the end of the
  function, where no value is returned.\<close>

theorem loadFile_on_new_uploader:
  "\<not> port_assigned blank_uploader
   \<and> int (length (decompressed plain_base64 failed_uncompress sample_px4))
       \<noteq> sint (declared_size sample_px4)
   \<and> fst (loadFile plain_base64 failed_uncompress sample_px4 blank_uploader) = InvalidPortUsed
   \<and> int (length (decompressed plain_base64 strip_header sample_px4))
       = sint (declared_size sample_px4)
   \<and> fst (loadFile plain_base64 strip_header sample_px4 blank_uploader) = EndReached"
proof -
  have d: "declared_size sample_px4 = 5"
    by (simp add: declared_size_def image_size_field_def sample_px4_def qsplit_def
        split_from.simps toInt_def parse_int_def trimmed_def isSpace_def is_digit_def)
  have i: "hd (image_field sample_px4) = ''HELLO''"
    by (simp add: image_field_def sample_px4_def qsplit_def split_from.simps)
  have u: "decompressed plain_base64 strip_header sample_px4 = [72, 69, 76, 76, 79]"
    by (simp add: decompressed_def d i fwimage_def toUtf8_def plain_base64_def strip_header_def)
  have h1: "int (length (decompressed plain_base64 strip_header sample_px4))
            = sint (declared_size sample_px4)"
    by (simp add: u d)
  have h2: "int (length (decompressed plain_base64 failed_uncompress sample_px4))
            \<noteq> sint (declared_size sample_px4)"
    by (simp add: decompressed_def failed_uncompress_def d)
  have p: "\<not> port_assigned blank_uploader" by (simp add: blank_uploader_def)
  have c1: "fst (loadFile plain_base64 strip_header sample_px4 blank_uploader) = EndReached"
    using loadFile_outcomes [THEN conjunct1, rule_format, OF h1, of blank_uploader] by blast
  have c2: "fst (loadFile plain_base64 failed_uncompress sample_px4 blank_uploader)
            = InvalidPortUsed"
    using loadFile_outcomes [THEN conjunct2, rule_format, OF h2, of blank_uploader] p by simp
  from p h1 h2 c1 c2 show ?thesis by blast
qed

subsection \<open>Stored settings\<close>

lemma digit_cases:
  "(d::nat) < 10 \<Longrightarrow>
   d = 9 \<or> d = 8 \<or> d = 7 \<or> d = 6 \<or> d = 5 \<or> d = 4 \<or> d = 3 \<or> d = 2 \<or> d = 1 \<or> d = 0"
  by arith

lemma digit_char_is_digit: "n < 10 \<Longrightarrow> is_digit (digit_char n)"
  by (drule digit_cases) (elim disjE, simp_all add: digit_char_def is_digit_def)

lemma digit_char_value: "n < 10 \<Longrightarrow> of_char (digit_char n) - 48 = n"
  by (drule digit_cases) (elim disjE, simp_all add: digit_char_def)

lemma digit_char_set: "n < 10 \<Longrightarrow> digit_char n \<in> set ''0123456789''"
  by (drule digit_cases) (elim disjE, simp_all add: digit_char_def)

lemma digits_nonempty: "digits n \<noteq> []"
  by (subst digits.simps) simp

lemma digits_set: "set (digits n) \<subseteq> set ''0123456789''"
proof (induction n rule: digits.induct)
  case (1 n)
  show ?case
  proof (cases "n < 10")
    case True
    then show ?thesis
      using digit_char_set [of n] by (subst digits.simps) simp
  next
    case False
    then have "n mod 10 < 10" by simp
    then have "digit_char (n mod 10) \<in> set ''0123456789''" by (rule digit_char_set)
    then show ?thesis
      using False "1.IH" by (subst digits.simps) simp
  qed
qed

lemma parse_digits_append:
  "parse_digits acc (xs @ ys) =
     (case parse_digits acc xs of None \<Rightarrow> None | Some a \<Rightarrow> parse_digits a ys)"
  by (induction xs arbitrary: acc) auto

lemma parse_digits_digits: "parse_digits 0 (digits n) = Some n"
proof (induction n rule: digits.induct)
  case (1 n)
  show ?case
  proof (cases "n < 10")
    case True
    then show ?thesis
      using digit_char_is_digit [of n] digit_char_value [of n] by (subst digits.simps) simp
  next
    case False
    have m: "n mod 10 < 10" by simp
    have "parse_digits 0 (digits n)
        = parse_digits 0 (digits (n div 10) @ [digit_char (n mod 10)])"
      using False by (subst digits.simps) simp
    also have "\<dots> = parse_digits (n div 10) [digit_char (n mod 10)]"
      using "1.IH" False by (simp add: parse_digits_append)
    also have "\<dots> = Some (10 * (n div 10) + n mod 10)"
      using digit_char_is_digit [OF m] digit_char_value [OF m] by simp
    finally show ?thesis by simp
  qed
qed

lemma trimmed_id:
  assumes "s \<noteq> []" "\<not> isSpace (hd s)" "\<not> isSpace (last s)"
  shows "trimmed s = s"
proof -
  have a: "dropWhile isSpace s = s" using assms(1,2) by (cases s) auto
  obtain x xs where r: "rev s = x # xs" using assms(1) by (cases "rev s") auto
  then have "x = last s" using assms(1) by (metis hd_rev list.sel(1))
  then have "dropWhile isSpace (x # xs) = x # xs" using assms(3) by simp
  then have b: "dropWhile isSpace (rev s) = rev s" by (simp only: r)
  show ?thesis by (simp add: trimmed_def a b)
qed

lemma number_set: "set (number v) \<subseteq> set ''-0123456789''"
proof -
  define D where "D = set ''0123456789''"
  have e: "set ''-0123456789'' = insert CHR ''-'' D" by (simp only: D_def list.set)
  have d: "\<And>k. set (digits k) \<subseteq> D" unfolding D_def by (rule digits_set)
  show ?thesis
  proof (cases "sint v < 0")
    case True
    then have "number v = CHR ''-'' # digits (nat (- sint v))" by (simp add: number_def)
    then have "set (number v) = insert CHR ''-'' (set (digits (nat (- sint v))))"
      by (simp only: list.set)
    then show ?thesis using d [of "nat (- sint v)"] unfolding e by blast
  next
    case False
    then have "number v = digits (nat (sint v))" by (simp add: number_def)
    then show ?thesis using d [of "nat (sint v)"] unfolding e by auto
  qed
qed

lemma number_nonempty: "number v \<noteq> []"
  by (simp add: number_def digits_nonempty)

lemma number_chars:
  assumes "c \<in> set (number v)"
  shows "\<not> isSpace c" "c \<noteq> CHR '':''" "c \<noteq> CHR '',''"
proof -
  have "c \<in> set ''-0123456789''" using assms number_set [of v] by blast
  then have c: "c = CHR ''-'' \<or> c = CHR ''0'' \<or> c = CHR ''1'' \<or> c = CHR ''2'' \<or> c = CHR ''3''
      \<or> c = CHR ''4'' \<or> c = CHR ''5'' \<or> c = CHR ''6'' \<or> c = CHR ''7'' \<or> c = CHR ''8''
      \<or> c = CHR ''9''" by simp
  from c show "\<not> isSpace c" by (elim disjE) (simp_all add: isSpace_def)
  from c show "c \<noteq> CHR '':''" by (elim disjE) simp_all
  from c show "c \<noteq> CHR '',''" by (elim disjE) simp_all
qed

lemma number_no_colon: "CHR '':'' \<notin> set (number v)"
proof
  assume "CHR '':'' \<in> set (number v)"
  then have "CHR '':'' \<noteq> CHR '':''" by (rule number_chars(2))
  then show False by simp
qed

lemma number_no_comma: "CHR '','' \<notin> set (number v)"
proof
  assume "CHR '','' \<in> set (number v)"
  then have "CHR '','' \<noteq> CHR '',''" by (rule number_chars(3))
  then show False by simp
qed

lemma parse_int_number: "parse_int (number v) = Some (sint v)"
proof (cases "sint v < 0")
  case True
  then show ?thesis
    by (simp add: number_def parse_int_def digits_nonempty parse_digits_digits)
next
  case False
  obtain c cs where d: "digits (nat (sint v)) = c # cs"
    using digits_nonempty [of "nat (sint v)"] by (cases "digits (nat (sint v))") auto
  have "c \<in> set (digits (nat (sint v)))" by (simp add: d)
  then have "c \<in> set (number v)" using False by (simp add: number_def)
  then have "c \<in> set ''-0123456789''" using number_set [of v] by blast
  moreover have "c \<noteq> CHR ''-''"
  proof
    assume "c = CHR ''-''"
    then have "CHR ''-'' \<in> set (digits (nat (sint v)))" by (simp add: d)
    then have "CHR ''-'' \<in> set ''0123456789''" using digits_set by blast
    then show False by simp
  qed
  ultimately have "c \<noteq> CHR ''-''" "c \<noteq> CHR ''+''" by auto
  then have "parse_int (c # cs) = map_option int (parse_digits 0 (c # cs))"
    by (simp add: parse_int_def)
  then show ?thesis
    using False d parse_digits_digits [of "nat (sint v)"] by (simp add: number_def)
qed

lemma toInt_number: "toInt (number v) = v"
proof -
  have "hd (number v) \<in> set (number v)" "last (number v) \<in> set (number v)"
    using number_nonempty [of v] by simp_all
  then have "\<not> isSpace (hd (number v))" "\<not> isSpace (last (number v))"
    using number_chars(1) by blast+
  then have "trimmed (number v) = number v"
    using number_nonempty [of v] by (intro trimmed_id)
  moreover have "- (2 ^ 31) \<le> sint v" "sint v < 2 ^ 31"
    using sint_ge [of v] sint_lt [of v] by simp_all
  ultimately show ?thesis
    by (simp add: toInt_def parse_int_number)
qed

lemma split_from_no_sep: "c \<notin> set p \<Longrightarrow> split_from [c] piece p = [piece @ p]"
proof (induction p arbitrary: piece)
  case Nil
  show ?case by (subst split_from.simps) simp
next
  case (Cons x xs)
  then have "x \<noteq> c" "c \<notin> set xs" by auto
  then have "split_from [c] piece (x # xs) = split_from [c] (piece @ [x]) xs"
    by (subst split_from.simps) simp
  then show ?case using Cons.IH [OF \<open>c \<notin> set xs\<close>, of "piece @ [x]"] by simp
qed

lemma split_from_at_sep:
  "c \<notin> set p \<Longrightarrow> split_from [c] piece (p @ c # rest) = (piece @ p) # split_from [c] [] rest"
proof (induction p arbitrary: piece)
  case Nil
  show ?case by (subst split_from.simps) simp
next
  case (Cons x xs)
  then have "x \<noteq> c" "c \<notin> set xs" by auto
  then have "split_from [c] piece ((x # xs) @ c # rest)
           = split_from [c] (piece @ [x]) (xs @ c # rest)"
    by (subst split_from.simps) simp
  then show ?case using Cons.IH [OF \<open>c \<notin> set xs\<close>, of "piece @ [x]"] by simp
qed

text \<open>One entry of the stored text.\<close>

lemma entry_split:
  assumes "CHR '':'' \<notin> set k"
  shows "qsplit '':'' (k @ '':'' @ number v) = [k, number v]"
proof -
  have "split_from '':'' [] (k @ CHR '':'' # number v)
      = ([] @ k) # split_from '':'' [] (number v)"
    using assms by (rule split_from_at_sep)
  also have "split_from '':'' [] (number v) = [[] @ number v]"
    using number_no_colon by (rule split_from_no_sep)
  finally show ?thesis by (simp add: qsplit_def)
qed

lemma load_portbaud_entry:
  assumes "CHR '':'' \<notin> set k"
  shows "load_portbaud m (k @ '':'' @ number v) = map_insert k v m"
proof -
  have q: "qsplit '':'' (k @ '':'' @ number v) = [k, number v]"
    by (rule entry_split [OF assms])
  show ?thesis unfolding load_portbaud_def q by (simp add: toInt_number)
qed

lemma entry_no_comma:
  assumes "CHR '','' \<notin> set k"
  shows "CHR '','' \<notin> set (k @ '':'' @ number v)"
  using assms number_no_comma [of v] by simp

lemma joined_entries_split:
  assumes "m \<noteq> []" "\<forall>k \<in> set (map fst m). CHR '','' \<notin> set k"
  shows "qsplit '','' (joined_entries m) = map (\<lambda>(k, v). k @ '':'' @ number v) m"
  using assms
proof (induction m rule: joined_entries.induct)
  case 1
  then show ?case by simp
next
  case (2 k v)
  then have "CHR '','' \<notin> set (k @ '':'' @ number v)" by (intro entry_no_comma) simp
  then have "split_from '','' [] (k @ '':'' @ number v) = [[] @ (k @ '':'' @ number v)]"
    by (rule split_from_no_sep)
  then show ?case by (simp add: qsplit_def)
next
  case (3 k v e m)
  then have "CHR '','' \<notin> set (k @ '':'' @ number v)" by (intro entry_no_comma) simp
  then have "split_from '','' [] ((k @ '':'' @ number v) @ CHR '','' # joined_entries (e # m))
           = ([] @ (k @ '':'' @ number v)) # split_from '','' [] (joined_entries (e # m))"
    by (rule split_from_at_sep)
  moreover have "qsplit '','' (joined_entries (e # m))
               = map (\<lambda>(k, v). k @ '':'' @ number v) (e # m)"
    using 3 by simp
  ultimately show ?case by (simp add: qsplit_def)
qed

lemma foldl_entries:
  "foldl (\<lambda>acc (k, v). acc @ k @ '':'' @ number v @ '','') acc m
   = acc @ concat (map (\<lambda>(k, v). k @ '':'' @ number v @ '','') m)"
  by (induction m arbitrary: acc) (auto simp: case_prod_beta)

lemma concat_entries:
  "m \<noteq> [] \<Longrightarrow>
   concat (map (\<lambda>(k, v). k @ '':'' @ number v @ '','') m) = joined_entries m @ '',''"
  by (induction m rule: joined_entries.induct) simp_all

lemma portbaudmap_text_joined: "portbaudmap_text m = joined_entries m"
proof (cases "m = []")
  case True
  then show ?thesis by (simp add: portbaudmap_text_def mid_def)
next
  case False
  have "foldl (\<lambda>acc (k, v). acc @ k @ '':'' @ number v @ '','') [] m
      = joined_entries m @ '',''"
    unfolding foldl_entries [of "[]" m] concat_entries [OF False] by simp
  then have "portbaudmap_text m
      = mid (joined_entries m @ '','') 0 (int (length (joined_entries m @ '','')) - 1)"
    unfolding portbaudmap_text_def Let_def by (simp only:)
  then show ?thesis by (simp add: mid_def)
qed

lemma joined_entries_nonempty: "m \<noteq> [] \<Longrightarrow> joined_entries m \<noteq> []"
  by (induction m rule: joined_entries.induct) (simp_all add: number_nonempty)

lemma joined_entries_no_trailing_comma:
  "m \<noteq> [] \<Longrightarrow> last (joined_entries m) \<noteq> CHR '',''"
proof (induction m rule: joined_entries.induct)
  case 1
  then show ?case by simp
next
  case (2 k v)
  have "last (number v) \<in> set (number v)" using number_nonempty [of v] by simp
  then have "last (number v) \<noteq> CHR '',''" by (rule number_chars(3))
  moreover have "last (joined_entries [(k, v)]) = last (number v)"
    using number_nonempty [of v] by simp
  ultimately show ?case by simp
next
  case (3 k v e m)
  have "joined_entries (e # m) \<noteq> []" by (rule joined_entries_nonempty) simp
  then have "last (joined_entries ((k, v) # e # m)) = last (joined_entries (e # m))" by simp
  then show ?case using 3 by simp
qed

lemma map_of_map_insert: "map_of (map_insert k v m) = (map_of m)(k \<mapsto> v)"
  by (induction m) (auto simp: fun_upd_twist)

lemma map_insert_nonempty: "map_insert k v m \<noteq> []"
  by (cases m) (auto split: if_splits)

lemma foldl_load_entries:
  assumes "\<forall>k \<in> set (map fst m). CHR '':'' \<notin> set k"
  shows "foldl load_portbaud mp (map (\<lambda>(k, v). k @ '':'' @ number v) m)
       = foldl (\<lambda>mp (k, v). map_insert k v mp) mp m"
  using assms
proof (induction m arbitrary: mp)
  case Nil
  show ?case by simp
next
  case (Cons e m)
  obtain k v where e: "e = (k, v)" by (cases e)
  have "CHR '':'' \<notin> set k" using Cons.prems e by simp
  then have "load_portbaud mp (k @ '':'' @ number v) = map_insert k v mp"
    by (rule load_portbaud_entry)
  then show ?case using Cons e by simp
qed

lemma foldl_map_insert_nonempty:
  "m \<noteq> [] \<or> mp \<noteq> [] \<Longrightarrow> foldl (\<lambda>mp (k, v). map_insert k v mp) mp m \<noteq> []"
proof (induction m arbitrary: mp)
  case Nil
  then show ?case by simp
next
  case (Cons e m)
  obtain k v where e: "e = (k, v)" by (cases e)
  have "map_insert k v mp \<noteq> []" by (rule map_insert_nonempty)
  then show ?case using Cons.IH [of "map_insert k v mp"] e by simp
qed

lemma map_of_foldl_map_insert:
  "distinct (map fst m) \<Longrightarrow>
   map_of (foldl (\<lambda>mp (k, v). map_insert k v mp) mp m) = map_of mp ++ map_of m"
proof (induction m arbitrary: mp)
  case Nil
  show ?case by simp
next
  case (Cons e m)
  obtain k v where e: "e = (k, v)" by (cases e)
  have d: "distinct (map fst m)" and n: "k \<notin> fst ` set m" using Cons.prems e by auto
  have "map_of (foldl (\<lambda>mp (k, v). map_insert k v mp) mp (e # m))
      = map_of (map_insert k v mp) ++ map_of m"
    using Cons.IH [OF d, of "map_insert k v mp"] e by simp
  also have "\<dots> = (map_of mp)(k \<mapsto> v) ++ map_of m" by (simp add: map_of_map_insert)
  also have "\<dots> = map_of mp ++ (map_of m)(k \<mapsto> v)"
  proof (rule ext)
    fix x
    have "map_of m k = None" using n by (simp add: map_of_eq_None_iff)
    then show "((map_of mp)(k \<mapsto> v) ++ map_of m) x = (map_of mp ++ (map_of m)(k \<mapsto> v)) x"
      by (cases "x = k") (auto simp: map_add_def split: option.splits)
  qed
  finally have "map_of (foldl (\<lambda>mp (k, v). map_insert k v mp) mp (e # m))
      = map_of mp ++ (map_of m)(k \<mapsto> v)" .
  moreover have "map_of (e # m) = (map_of m)(k \<mapsto> v)" by (simp add: e)
  ultimately show ?case by (simp only:)
qed





end
